theory Spec2Isabelle
  imports Main "HOL-Library.Multiset"
begin

section \<open>The data model of \<open>app.py\<close>\<close>

text \<open>
  The cleaning routine \<open>clean_dataset\<close> of \<open>app.py\<close> works on a pandas
  \<open>DataFrame\<close>. A frame is modelled as pandas stores it: a row index and an ordered list
  of named columns, each column holding one cell per row. Column labels may repeat
  (pandas allows it, and name normalisation can produce it).

  A cell is a number, a string, or the missing marker \<open>NaN\<close>. The numbers are a type
  parameter \<open>'n\<close>: which strings pandas reads as a number, and how it prints a number,
  belong to pandas and are parameters of the model (\<open>parse\<close> and \<open>repr\<close> below);
  \<open>parse s\<close> is \<open>None\<close> for a string that pandas does not read as a number, the
  string \<open>nan\<close> included. The column-wide choice between \<open>int64\<close> and \<open>float64\<close> is
  not modelled.
\<close>

datatype 'n cell = Num 'n | Str string | NaN

record 'n dataframe =
  index :: "nat list"
  columns :: "(string \<times> 'n cell list) list"

text \<open>The exceptions that the statements of \<open>clean_dataset\<close> can raise.\<close>

datatype error = KeyError string | TypeError | AttributeError

text \<open>
  \<open>df[key]\<close> yields a \<open>Series\<close> when \<open>key\<close> labels one column, and a frame of all the
  columns with that label when it labels several.
\<close>

datatype 'n item = Series "'n cell list" | Frame "(string \<times> 'n cell list) list"

definition column_names :: "'n dataframe \<Rightarrow> string list" where
  "column_names df = map fst (columns df)"

definition nrows :: "'n dataframe \<Rightarrow> nat" where
  "nrows df = length (index df)"

text \<open>The \<open>i\<close>-th row of a frame: the \<open>i\<close>-th cell of every column, with its label.\<close>

definition row :: "'n dataframe \<Rightarrow> nat \<Rightarrow> (string \<times> 'n cell) list" where
  "row df i = map (\<lambda>(n, cs). (n, cs ! i)) (columns df)"

text \<open>A frame is well formed when every column has one cell per row.\<close>

definition wf_frame :: "'n dataframe \<Rightarrow> bool" where
  "wf_frame df = list_all (\<lambda>(n, cs). length cs = length (index df)) (columns df)"

section \<open>String operations\<close>

text \<open>
  A string is the list of the bytes of its UTF-8 encoding. \<open>.str.lower()\<close> is Python's
  \<open>str.lower()\<close>, the lower-casing of Unicode; its tables are not part of the
  repository, and the function is a parameter of the model, \<open>lower\<close> below. The
  replacements of line 103 look for ASCII characters, whose bytes occur in a UTF-8 string
  only as those characters.
\<close>

text \<open>\<open>.str.replace(pat, repl)\<close> with a one-character pattern, taken literally.\<close>

definition str_replace :: "char \<Rightarrow> string \<Rightarrow> string \<Rightarrow> string" where
  "str_replace pat repl s = concat (map (\<lambda>c. if c = pat then repl else [c]) s)"

text \<open>
  \<open>.str.replace(r'[\$,]', '', regex=True)\<close>: every character of the class
  \<open>[\$,]\<close> is deleted.
\<close>

definition strip_currency :: "string \<Rightarrow> string" where
  "strip_currency s = filter (\<lambda>c. c \<noteq> CHR ''$'' \<and> c \<noteq> CHR '','') s"

text \<open>Line 103: lower, then space to underscore, then delete the parentheses.\<close>

definition normalize_name :: "(string \<Rightarrow> string) \<Rightarrow> string \<Rightarrow> string" where
  "normalize_name lower s =
     str_replace (CHR '')'') [] (str_replace (CHR ''('') [] (str_replace (CHR '' '') ''_'' (lower s)))"

section \<open>The pandas operations used by \<open>clean_dataset\<close>\<close>

text \<open>\<open>df.columns = f(df.columns)\<close>\<close>

definition set_column_names :: "(string \<Rightarrow> string) \<Rightarrow> 'n dataframe \<Rightarrow> 'n dataframe" where
  "set_column_names f df = df\<lparr>columns := map (\<lambda>(n, cs). (f n, cs)) (columns df)\<rparr>"

text \<open>\<open>df[key]\<close>: \<open>KeyError\<close> when no column has the label.\<close>

definition getitem :: "string \<Rightarrow> 'n dataframe \<Rightarrow> error + 'n item" where
  "getitem key df =
     (case filter (\<lambda>(n, cs). n = key) (columns df) of
        [] \<Rightarrow> Inl (KeyError key)
      | [(n, cs)] \<Rightarrow> Inr (Series cs)
      | m \<Rightarrow> Inr (Frame m))"

text \<open>\<open>key in df.columns\<close>\<close>

definition has_column :: "string \<Rightarrow> 'n dataframe \<Rightarrow> bool" where
  "has_column key df = (key \<in> set (map fst (columns df)))"

text \<open>
  \<open>df[key] = series\<close>: the cells of the column labelled \<open>key\<close> are replaced where it
  stands; a new label is appended as the last column.
\<close>

definition setitem :: "string \<Rightarrow> 'n cell list \<Rightarrow> 'n dataframe \<Rightarrow> 'n dataframe" where
  "setitem key s df =
     (if has_column key df
      then df\<lparr>columns := map (\<lambda>(n, cs). if n = key then (n, s) else (n, cs)) (columns df)\<rparr>
      else df\<lparr>columns := columns df @ [(key, s)]\<rparr>)"

text \<open>
  \<open>pd.to_numeric(_, errors='coerce')\<close> on one cell: a number stays, the missing marker
  stays, a string is parsed and becomes the missing marker when it does not parse.
\<close>

fun to_numeric_cell :: "(string \<Rightarrow> 'n option) \<Rightarrow> 'n cell \<Rightarrow> 'n cell" where
  "to_numeric_cell parse (Num x) = Num x"
| "to_numeric_cell parse NaN = NaN"
| "to_numeric_cell parse (Str s) = (case parse s of Some x \<Rightarrow> Num x | None \<Rightarrow> NaN)"

text \<open>
  \<open>pd.to_numeric(arg, errors='coerce')\<close>: cell by cell on a \<open>Series\<close>; a frame is not
  accepted (\<open>TypeError\<close>: arg must be a list, tuple, 1-d array, or Series).
\<close>

fun to_numeric :: "(string \<Rightarrow> 'n option) \<Rightarrow> 'n item \<Rightarrow> error + 'n cell list" where
  "to_numeric parse (Series cs) = Inr (map (to_numeric_cell parse) cs)"
| "to_numeric parse (Frame m) = Inl TypeError"

text \<open>\<open>str(x)\<close> of one cell; the missing marker prints as \<open>nan\<close>.\<close>

fun cell_str :: "('n \<Rightarrow> string) \<Rightarrow> 'n cell \<Rightarrow> string" where
  "cell_str repr (Num x) = repr x"
| "cell_str repr (Str s) = s"
| "cell_str repr NaN = ''nan''"

text \<open>\<open>.astype(str)\<close>, defined on a \<open>Series\<close> and on a frame alike.\<close>

fun astype_str :: "('n \<Rightarrow> string) \<Rightarrow> 'n item \<Rightarrow> 'n item" where
  "astype_str repr (Series cs) = Series (map (\<lambda>c. Str (cell_str repr c)) cs)"
| "astype_str repr (Frame m) = Frame (map (\<lambda>(n, cs). (n, map (\<lambda>c. Str (cell_str repr c)) cs)) m)"

text \<open>
  \<open>.str.replace(r'[\$,]', '', regex=True)\<close>: a frame has no \<open>.str\<close> accessor
  (\<open>AttributeError\<close>); on a \<open>Series\<close> a cell that is not a string gives the missing
  marker.
\<close>

fun str_strip_cell :: "'n cell \<Rightarrow> 'n cell" where
  "str_strip_cell (Str s) = Str (strip_currency s)"
| "str_strip_cell c = NaN"

fun str_replace_currency :: "'n item \<Rightarrow> error + 'n cell list" where
  "str_replace_currency (Series cs) = Inr (map str_strip_cell cs)"
| "str_replace_currency (Frame m) = Inl AttributeError"

text \<open>\<open>df.drop(columns=[key], errors='ignore', inplace=True)\<close>\<close>

definition drop_column :: "string \<Rightarrow> 'n dataframe \<Rightarrow> 'n dataframe" where
  "drop_column key df = df\<lparr>columns := filter (\<lambda>(n, cs). n \<noteq> key) (columns df)\<rparr>"

text \<open>\<open>df.rename(columns={old: new}, inplace=True)\<close>\<close>

definition rename_column :: "string \<Rightarrow> string \<Rightarrow> 'n dataframe \<Rightarrow> 'n dataframe" where
  "rename_column old new df = set_column_names (\<lambda>n. if n = old then new else n) df"

section \<open>The statements of \<open>clean_dataset\<close>\<close>

text \<open>Line 103.\<close>

definition standardize_columns :: "(string \<Rightarrow> string) \<Rightarrow> 'n dataframe \<Rightarrow> 'n dataframe" where
  "standardize_columns lower df = set_column_names (normalize_name lower) df"

text \<open>Lines 106 and 107: \<open>df[key] = pd.to_numeric(df[key], errors='coerce')\<close>.\<close>

definition coerce_column ::
  "(string \<Rightarrow> 'n option) \<Rightarrow> string \<Rightarrow> 'n dataframe \<Rightarrow> error + 'n dataframe" where
  "coerce_column parse key df =
     (case getitem key df of
        Inl e \<Rightarrow> Inl e
      | Inr it \<Rightarrow>
          (case to_numeric parse it of
             Inl e \<Rightarrow> Inl e
           | Inr s \<Rightarrow> Inr (setitem key s df)))"

text \<open>
  Line 111: \<open>df[key] = df[key].astype(str).str.replace(r'[\$,]', '', regex=True)\<close>
  for \<open>key = 'gdp_for_year_$'\<close>.
\<close>

definition strip_gdp_column :: "('n \<Rightarrow> string) \<Rightarrow> 'n dataframe \<Rightarrow> error + 'n dataframe" where
  "strip_gdp_column repr df =
     (case getitem ''gdp_for_year_$'' df of
        Inl e \<Rightarrow> Inl e
      | Inr it \<Rightarrow>
          (case str_replace_currency (astype_str repr it) of
             Inl e \<Rightarrow> Inl e
           | Inr s \<Rightarrow> Inr (setitem ''gdp_for_year_$'' s df)))"

text \<open>Lines 110 to 112: the guard of line 110, then line 111, then line 112.\<close>

definition clean_gdp_for_year ::
  "(string \<Rightarrow> 'n option) \<Rightarrow> ('n \<Rightarrow> string) \<Rightarrow> 'n dataframe \<Rightarrow> error + 'n dataframe" where
  "clean_gdp_for_year parse repr df =
     (if has_column ''gdp_for_year_$'' df
      then
        (case strip_gdp_column repr df of
           Inl e \<Rightarrow> Inl e
         | Inr df1 \<Rightarrow> coerce_column parse ''gdp_for_year_$'' df1)
      else Inr df)"

text \<open>
  \<open>clean_dataset\<close>, lines 99 to 120, as a function from the frame passed in to the frame
  returned, or to the exception raised. The copy of line 100 is the frame itself here;
  the version on a store of objects, where the copy is a new object, follows.
\<close>

definition clean_dataset ::
  "(string \<Rightarrow> string) \<Rightarrow> (string \<Rightarrow> 'n option) \<Rightarrow> ('n \<Rightarrow> string) \<Rightarrow> 'n dataframe \<Rightarrow> error + 'n dataframe" where
  "clean_dataset lower parse repr df =
     (let df0 = standardize_columns lower df in
      case coerce_column parse ''suicides_no'' df0 of
        Inl e \<Rightarrow> Inl e
      | Inr df1 \<Rightarrow>
          (case coerce_column parse ''gdp_per_capita_$'' df1 of
             Inl e \<Rightarrow> Inl e
           | Inr df2 \<Rightarrow>
               (case clean_gdp_for_year parse repr df2 of
                  Inl e \<Rightarrow> Inl e
                | Inr df3 \<Rightarrow>
                    Inr (rename_column ''gdp_per_capita_$'' ''gdp_per_capita''
                           (drop_column ''hdi_for_year'' df3)))))"

section \<open>\<open>clean_dataset\<close> on a store of objects\<close>

text \<open>
  Python passes the frame by reference, and lines 103 to 118 mutate an object in place.
  The store is the list of the frames that exist; a reference is a position in it.
  \<open>df.copy()\<close> makes a new object; every later statement of \<open>clean_dataset\<close> writes to
  that object. A statement that raises leaves the store as it was before the statement.
\<close>

type_synonym ref = nat
type_synonym 'n store = "'n dataframe list"

definition copy_frame :: "ref \<Rightarrow> 'n store \<Rightarrow> ref \<times> 'n store" where
  "copy_frame r h = (length h, h @ [h ! r])"

definition clean_dataset_store ::
  "(string \<Rightarrow> string) \<Rightarrow> (string \<Rightarrow> 'n option) \<Rightarrow> ('n \<Rightarrow> string) \<Rightarrow> ref \<Rightarrow> 'n store \<Rightarrow> (error + ref) \<times> 'n store" where
  "clean_dataset_store lower parse repr r h =
     (let (d, h0) = copy_frame r h;
          h1 = h0[d := standardize_columns lower (h0 ! d)]
      in case coerce_column parse ''suicides_no'' (h1 ! d) of
           Inl e \<Rightarrow> (Inl e, h1)
         | Inr f2 \<Rightarrow>
             (let h2 = h1[d := f2]
              in case coerce_column parse ''gdp_per_capita_$'' (h2 ! d) of
                   Inl e \<Rightarrow> (Inl e, h2)
                 | Inr f3 \<Rightarrow>
                     (let h3 = h2[d := f3]
                      in case clean_gdp_for_year parse repr (h3 ! d) of
                           Inl e \<Rightarrow> (Inl e, h3)
                         | Inr f4 \<Rightarrow>
                             (let h4 = h3[d := f4];
                                  h5 = h4[d := drop_column ''hdi_for_year'' (h4 ! d)];
                                  h6 = h5[d := rename_column ''gdp_per_capita_$''
                                                 ''gdp_per_capita'' (h5 ! d)]
                              in (Inr d, h6)))))"

section \<open>The cleaning steps in any order\<close>

text \<open>
  The four statements between the normalisation of the names (line 103) and the rename
  (line 118), named so that they can be run in another order than the code's.
\<close>

datatype step = CoerceSuicides | CoerceGdpPerCapita | CleanGdpForYear | DropHdi

fun apply_step ::
  "(string \<Rightarrow> 'n option) \<Rightarrow> ('n \<Rightarrow> string) \<Rightarrow> step \<Rightarrow> 'n dataframe \<Rightarrow> error + 'n dataframe" where
  "apply_step parse repr CoerceSuicides df = coerce_column parse ''suicides_no'' df"
| "apply_step parse repr CoerceGdpPerCapita df = coerce_column parse ''gdp_per_capita_$'' df"
| "apply_step parse repr CleanGdpForYear df = clean_gdp_for_year parse repr df"
| "apply_step parse repr DropHdi df = Inr (drop_column ''hdi_for_year'' df)"

fun run_steps ::
  "(string \<Rightarrow> 'n option) \<Rightarrow> ('n \<Rightarrow> string) \<Rightarrow> step list \<Rightarrow> 'n dataframe \<Rightarrow> error + 'n dataframe" where
  "run_steps parse repr [] df = Inr df"
| "run_steps parse repr (s # ss) df =
     (case apply_step parse repr s df of
        Inl e \<Rightarrow> Inl e
      | Inr df' \<Rightarrow> run_steps parse repr ss df')"

text \<open>The order of lines 106, 107, 110 to 112, 115.\<close>

definition code_order :: "step list" where
  "code_order = [CoerceSuicides, CoerceGdpPerCapita, CleanGdpForYear, DropHdi]"

text \<open>Line 103, the steps in the order \<open>ss\<close>, then line 118.\<close>

definition clean_in_order ::
  "(string \<Rightarrow> string) \<Rightarrow> (string \<Rightarrow> 'n option) \<Rightarrow> ('n \<Rightarrow> string) \<Rightarrow> step list \<Rightarrow> 'n dataframe \<Rightarrow> error + 'n dataframe" where
  "clean_in_order lower parse repr ss df =
     (case run_steps parse repr ss (standardize_columns lower df) of
        Inl e \<Rightarrow> Inl e
      | Inr df' \<Rightarrow> Inr (rename_column ''gdp_per_capita_$'' ''gdp_per_capita'' df'))"

text \<open>The table that a run produces, if it produces one.\<close>

fun table_of :: "error + 'a \<Rightarrow> 'a option" where
  "table_of (Inl e) = None"
| "table_of (Inr t) = Some t"

section \<open>The two loaders\<close>

text \<open>
  \<open>load_data\<close> is defined twice, at line 9 and at line 94, each time as
  \<open>pd.read_csv("sucide_case.csv")\<close>. \<open>read_csv\<close> is pandas' reader, a parameter: it
  maps the state of the file system and a path to a frame or to an error.
\<close>

definition load_data :: "('fs \<Rightarrow> string \<Rightarrow> 'e + 'n dataframe) \<Rightarrow> 'fs \<Rightarrow> 'e + 'n dataframe" where
  "load_data read_csv fs = read_csv fs ''sucide_case.csv''"

definition load_data' :: "('fs \<Rightarrow> string \<Rightarrow> 'e + 'n dataframe) \<Rightarrow> 'fs \<Rightarrow> 'e + 'n dataframe" where
  "load_data' read_csv fs = read_csv fs ''sucide_case.csv''"

text \<open>
  Line 12, \<open>df = load_data()\<close>, the frame that is previewed (\<open>df_preview\<close> here),
  and line 123, \<open>df_raw = load_data()\<close>, the frame that is cleaned.
\<close>

definition df_preview :: "('fs \<Rightarrow> string \<Rightarrow> 'e + 'n dataframe) \<Rightarrow> 'fs \<Rightarrow> 'e + 'n dataframe" where
  "df_preview read_csv fs = load_data read_csv fs"

definition df_raw :: "('fs \<Rightarrow> string \<Rightarrow> 'e + 'n dataframe) \<Rightarrow> 'fs \<Rightarrow> 'e + 'n dataframe" where
  "df_raw read_csv fs = load_data' read_csv fs"

section \<open>What each statement does to the columns\<close>

text \<open>
  Auxiliary notions for the proofs: how often a label occurs, a function applied to the
  cells of the columns with a label, and the cell function of lines 111 and 112.
\<close>

definition count_label :: "string \<Rightarrow> 'n dataframe \<Rightarrow> nat" where
  "count_label key df = length (filter (\<lambda>(n, cs). n = key) (columns df))"

definition map_column :: "string \<Rightarrow> ('n cell \<Rightarrow> 'n cell) \<Rightarrow> 'n dataframe \<Rightarrow> 'n dataframe" where
  "map_column key f df =
     df\<lparr>columns := map (\<lambda>(n, cs). if n = key then (n, map f cs) else (n, cs)) (columns df)\<rparr>"

definition gdp_cell :: "(string \<Rightarrow> 'n option) \<Rightarrow> ('n \<Rightarrow> string) \<Rightarrow> 'n cell \<Rightarrow> 'n cell" where
  "gdp_cell parse repr c = to_numeric_cell parse (Str (strip_currency (cell_str repr c)))"

text \<open>
  The result of \<open>clean_dataset\<close> in closed form, for comparison with the statements:
  the cell function chosen by the normalised label, the label after the rename, and the
  frame with the \<open>hdi_for_year\<close> columns left out and every other column cleaned in its
  place.
\<close>

definition clean_cell ::
  "(string \<Rightarrow> 'n option) \<Rightarrow> ('n \<Rightarrow> string) \<Rightarrow> string \<Rightarrow> 'n cell \<Rightarrow> 'n cell" where
  "clean_cell parse repr name c =
     (if name = ''suicides_no'' \<or> name = ''gdp_per_capita_$'' then to_numeric_cell parse c
      else if name = ''gdp_for_year_$'' then gdp_cell parse repr c
      else c)"

definition final_name :: "string \<Rightarrow> string" where
  "final_name name = (if name = ''gdp_per_capita_$'' then ''gdp_per_capita'' else name)"

definition kept :: "(string \<Rightarrow> string) \<Rightarrow> string \<Rightarrow> bool" where
  "kept lower name = (normalize_name lower name \<noteq> ''hdi_for_year'')"

definition clean_column ::
  "(string \<Rightarrow> string) \<Rightarrow> (string \<Rightarrow> 'n option) \<Rightarrow> ('n \<Rightarrow> string) \<Rightarrow> string \<times> 'n cell list \<Rightarrow> string \<times> 'n cell list" where
  "clean_column lower parse repr col =
     (final_name (normalize_name lower (fst col)),
      map (clean_cell parse repr (normalize_name lower (fst col))) (snd col))"

definition cleaned ::
  "(string \<Rightarrow> string) \<Rightarrow> (string \<Rightarrow> 'n option) \<Rightarrow> ('n \<Rightarrow> string) \<Rightarrow> 'n dataframe \<Rightarrow> 'n dataframe" where
  "cleaned lower parse repr df =
     df\<lparr>columns := map (clean_column lower parse repr) (filter (\<lambda>col. kept lower (fst col)) (columns df))\<rparr>"

text \<open>How often a label occurs among the normalised labels of a frame.\<close>

definition occurs :: "(string \<Rightarrow> string) \<Rightarrow> string \<Rightarrow> 'n dataframe \<Rightarrow> nat" where
  "occurs lower key df = count_label key (standardize_columns lower df)"

text \<open>
  The frames on which no statement raises: \<open>suicides_no\<close> and \<open>gdp_per_capita_$\<close> each
  label one column, and \<open>gdp_for_year_$\<close> at most one.
\<close>

definition cleanable :: "(string \<Rightarrow> string) \<Rightarrow> 'n dataframe \<Rightarrow> bool" where
  "cleanable lower df =
     (occurs lower ''suicides_no'' df = 1 \<and> occurs lower ''gdp_per_capita_$'' df = 1 \<and>
      occurs lower ''gdp_for_year_$'' df \<le> 1)"

text \<open>The cleaning of one row: the row-wise reading of \<open>cleaned\<close>.\<close>

definition clean_row ::
  "(string \<Rightarrow> string) \<Rightarrow> (string \<Rightarrow> 'n option) \<Rightarrow> ('n \<Rightarrow> string) \<Rightarrow> (string \<times> 'n cell) list \<Rightarrow> (string \<times> 'n cell) list" where
  "clean_row lower parse repr r =
     map (\<lambda>fld. (final_name (normalize_name lower (fst fld)),
                  clean_cell parse repr (normalize_name lower (fst fld)) (snd fld)))
       (filter (\<lambda>fld. kept lower (fst fld)) r)"

text \<open>A cell of a numeric column: a number or the missing marker.\<close>

fun numeric_or_missing :: "'n cell \<Rightarrow> bool" where
  "numeric_or_missing (Str s) = False"
| "numeric_or_missing c = True"

text \<open>
  The labels that no statement after line 103 refers to: a column with such a
  normalised label is neither coerced nor dropped nor renamed.
\<close>

definition ordinary :: "string \<Rightarrow> bool" where
  "ordinary name =
     (name \<noteq> ''suicides_no'' \<and> name \<noteq> ''gdp_for_year_$'' \<and>
      name \<noteq> ''gdp_per_capita_$'' \<and> name \<noteq> ''hdi_for_year'')"

text \<open>The uppercase letters of ASCII, \<open>A\<close> to \<open>Z\<close>.\<close>

definition ascii_upper :: "char \<Rightarrow> bool" where
  "ascii_upper c = (65 \<le> (of_char c :: nat) \<and> (of_char c :: nat) \<le> 90)"

section \<open>A sample instance\<close>

text \<open>
  For concrete evaluation the numbers are the integers, read from and printed as decimal
  digits, and the frames are small tables in the shape of the data set. The lower-casing
  of the instance maps the letters \<open>A\<close> to \<open>Z\<close> to \<open>a\<close> to \<open>z\<close> and leaves every other
  byte as it is: \<open>str.lower()\<close> does the same on a string of ASCII characters, and on a
  string whose other characters it leaves unchanged.
\<close>

definition sample_lower_char :: "char \<Rightarrow> char" where
  "sample_lower_char c = (if ascii_upper c then char_of ((of_char c :: nat) + 32) else c)"

definition sample_lower :: "string \<Rightarrow> string" where
  "sample_lower s = map sample_lower_char s"

definition is_digit :: "char \<Rightarrow> bool" where
  "is_digit c = (48 \<le> (of_char c :: nat) \<and> (of_char c :: nat) \<le> 57)"

definition sample_parse :: "string \<Rightarrow> int option" where
  "sample_parse s =
     (if s \<noteq> [] \<and> list_all is_digit s
      then Some (foldl (\<lambda>a c. 10 * a + (int (of_char c) - 48)) 0 s)
      else None)"

fun nat_digits :: "nat \<Rightarrow> string" where
  "nat_digits n =
     (if n < 10 then [char_of (48 + n)]
      else nat_digits (n div 10) @ [char_of (48 + n mod 10)])"

definition sample_repr :: "int \<Rightarrow> string" where
  "sample_repr i = (if i < 0 then CHR ''-'' # nat_digits (nat (- i)) else nat_digits (nat i))"

definition albania :: "int dataframe" where
  "albania =
     \<lparr>index = [0, 1],
      columns =
        [(''country'', [Str ''Albania'', Str ''Albania'']),
         (''year'', [Num 1987, Num 1988]),
         (''suicides_no'', [Num 21, Str ''abc'']),
         (''gdp_for_year ($)'', [Str ''2,156,624,900'', Str ''1,234,567'']),
         (''gdp_per_capita ($)'', [Num 796, Str ''769'']),
         (''HDI for year'', [NaN, NaN])]\<rparr>"

text \<open>The same table without the GDP-per-year column and without the HDI column.\<close>

definition no_gdp_for_year :: "int dataframe" where
  "no_gdp_for_year =
     \<lparr>index = [0, 1],
      columns =
        [(''country'', [Str ''Albania'', Str ''Albania'']),
         (''suicides_no'', [Num 21, Str ''abc'']),
         (''gdp_per_capita ($)'', [Num 796, Str ''769''])]\<rparr>"

text \<open>A table without the \<open>suicides_no\<close> column, and one without the GDP-per-capita column.\<close>

definition no_suicides_no :: "int dataframe" where
  "no_suicides_no =
     \<lparr>index = [0],
      columns =
        [(''country'', [Str ''Albania'']),
         (''gdp_per_capita ($)'', [Num 796])]\<rparr>"

definition no_gdp_per_capita :: "int dataframe" where
  "no_gdp_per_capita =
     \<lparr>index = [0],
      columns =
        [(''country'', [Str ''Albania'']),
         (''suicides_no'', [Num 21])]\<rparr>"

text \<open>What \<open>clean_dataset\<close> returns for \<open>albania\<close> and for \<open>no_gdp_for_year\<close>.\<close>

definition albania_clean :: "int dataframe" where
  "albania_clean =
     \<lparr>index = [0, 1],
      columns =
        [(''country'', [Str ''Albania'', Str ''Albania'']),
         (''year'', [Num 1987, Num 1988]),
         (''suicides_no'', [Num 21, NaN]),
         (''gdp_for_year_$'', [Num 2156624900, Num 1234567]),
         (''gdp_per_capita'', [Num 796, Num 769])]\<rparr>"

definition no_gdp_for_year_clean :: "int dataframe" where
  "no_gdp_for_year_clean =
     \<lparr>index = [0, 1],
      columns =
        [(''country'', [Str ''Albania'', Str ''Albania'']),
         (''suicides_no'', [Num 21, NaN]),
         (''gdp_per_capita'', [Num 796, Num 769])]\<rparr>"

text \<open>
  A table whose GDP-per-year column holds a number, a string with a currency sign and a
  missing value, and what \<open>clean_dataset\<close> returns for it.
\<close>

definition mixed_gdp :: "int dataframe" where
  "mixed_gdp =
     \<lparr>index = [0, 1, 2],
      columns =
        [(''suicides_no'', [Num 1, Num 2, Num 3]),
         (''gdp_for_year ($)'', [Num 5, Str ''$1,000'', NaN]),
         (''gdp_per_capita ($)'', [Num 7, Num 8, Num 9])]\<rparr>"

definition mixed_gdp_clean :: "int dataframe" where
  "mixed_gdp_clean =
     \<lparr>index = [0, 1, 2],
      columns =
        [(''suicides_no'', [Num 1, Num 2, Num 3]),
         (''gdp_for_year_$'', [Num 5, Num 1000, NaN]),
         (''gdp_per_capita'', [Num 7, Num 8, Num 9])]\<rparr>"

text \<open>
  A table with a column named by the one character U+03D2, an uppercase letter (bytes
  \<open>CF 92\<close> in UTF-8) that \<open>str.lower()\<close> leaves as it is, and what \<open>clean_dataset\<close>
  returns for it.
\<close>

definition upsilon :: "int dataframe" where
  "upsilon =
     \<lparr>index = [0],
      columns =
        [([CHR 0xCF, CHR 0x92], [Str ''x'']),
         (''suicides_no'', [Num 21]),
         (''gdp_per_capita ($)'', [Num 796])]\<rparr>"

definition upsilon_clean :: "int dataframe" where
  "upsilon_clean =
     \<lparr>index = [0],
      columns =
        [([CHR 0xCF, CHR 0x92], [Str ''x'']),
         (''suicides_no'', [Num 21]),
         (''gdp_per_capita'', [Num 796])]\<rparr>"

text \<open>The frame after lines 103 to 107, in closed form.\<close>

definition coerced :: "(string \<Rightarrow> string) \<Rightarrow> (string \<Rightarrow> 'n option) \<Rightarrow> 'n dataframe \<Rightarrow> 'n dataframe" where
  "coerced lower parse df =
     map_column ''gdp_per_capita_$'' (to_numeric_cell parse)
       (map_column ''suicides_no'' (to_numeric_cell parse) (standardize_columns lower df))"

text \<open>
  A step in two parts: the condition under which it does not raise, and what it does to
  the frame then.
\<close>

fun step_ok :: "step \<Rightarrow> 'n dataframe \<Rightarrow> bool" where
  "step_ok CoerceSuicides df = (count_label ''suicides_no'' df = 1)"
| "step_ok CoerceGdpPerCapita df = (count_label ''gdp_per_capita_$'' df = 1)"
| "step_ok CleanGdpForYear df = (count_label ''gdp_for_year_$'' df \<le> 1)"
| "step_ok DropHdi df = True"

fun step_act ::
  "(string \<Rightarrow> 'n option) \<Rightarrow> ('n \<Rightarrow> string) \<Rightarrow> step \<Rightarrow> 'n dataframe \<Rightarrow> 'n dataframe" where
  "step_act parse repr CoerceSuicides df = map_column ''suicides_no'' (to_numeric_cell parse) df"
| "step_act parse repr CoerceGdpPerCapita df =
     map_column ''gdp_per_capita_$'' (to_numeric_cell parse) df"
| "step_act parse repr CleanGdpForYear df =
     map_column ''gdp_for_year_$'' (gdp_cell parse repr) df"
| "step_act parse repr DropHdi df = drop_column ''hdi_for_year'' df"

text \<open>An order of the steps other than the code's, and a store with one frame.\<close>

definition other_order :: "step list" where
  "other_order = [DropHdi, CleanGdpForYear, CoerceGdpPerCapita, CoerceSuicides]"

definition sample_store :: "int store" where
  "sample_store = [no_gdp_for_year, albania]"

section \<open>Each statement by the number of columns that carry its label\<close>


lemma index_simps [simp]:
  "index (set_column_names f d) = index d"
  "index (setitem key s d) = index d"
  "index (drop_column key d) = index d"
  "index (rename_column old new d) = index d"
  "index (map_column key g d) = index d"
  "index (standardize_columns lower d) = index d"
  by (simp_all add: set_column_names_def setitem_def drop_column_def rename_column_def
      map_column_def standardize_columns_def)

lemma filter_label_single:
  assumes "filter (\<lambda>(n, cs). n = key) xs = [(k, s)]"
  shows "map (\<lambda>(n, cs). if n = key then (n, map f s) else (n, cs)) xs
       = map (\<lambda>(n, cs). if n = key then (n, map f cs) else (n, cs)) xs"
proof -
  have "\<And>n cs. (n, cs) \<in> set xs \<Longrightarrow> n = key \<Longrightarrow> cs = s"
  proof -
    fix n cs assume "(n, cs) \<in> set xs" "n = key"
    then have "(n, cs) \<in> set (filter (\<lambda>(n, cs). n = key) xs)" by simp
    with assms show "cs = s" by simp
  qed
  then show ?thesis by (auto intro!: map_cong)
qed

lemma has_column_count: "has_column key d = (count_label key d \<noteq> 0)"
  by (force simp: has_column_def count_label_def filter_empty_conv)

lemma getitem_absent: "count_label key d = 0 \<Longrightarrow> getitem key d = Inl (KeyError key)"
  by (simp add: getitem_def count_label_def)

lemma getitem_many: "2 \<le> count_label key d \<Longrightarrow> \<exists>m. getitem key d = Inr (Frame m)"
  by (auto simp: getitem_def count_label_def split: list.splits)

lemma coerce_column_absent:
  "count_label key d = 0 \<Longrightarrow> coerce_column parse key d = Inl (KeyError key)"
  by (simp add: coerce_column_def getitem_absent)

lemma coerce_column_many:
  "2 \<le> count_label key d \<Longrightarrow> coerce_column parse key d = Inl TypeError"
  using getitem_many [of key d] by (auto simp: coerce_column_def)

lemma coerce_column_single:
  assumes "count_label key d = 1"
  shows "coerce_column parse key d = Inr (map_column key (to_numeric_cell parse) d)"
proof -
  from assms obtain k s where f: "filter (\<lambda>(n, cs). n = key) (columns d) = [(k, s)]"
    by (auto simp: count_label_def length_Suc_conv)
  have h: "has_column key d" using assms by (simp add: has_column_count)
  show ?thesis
    using f h filter_label_single [OF f, of "to_numeric_cell parse"]
    by (simp add: coerce_column_def getitem_def setitem_def map_column_def)
qed

lemma count_label_map_column [simp]:
  "count_label key' (map_column key g d) = count_label key' d"
proof -
  have "filter (\<lambda>(n, cs). n = key') (map (\<lambda>(n, cs). if n = key then (n, map g cs) else (n, cs)) xs)
      = map (\<lambda>(n, cs). if n = key then (n, map g cs) else (n, cs)) (filter (\<lambda>(n, cs). n = key') xs)" for xs
    by (induction xs) (auto split: if_splits)
  then show ?thesis by (simp add: count_label_def map_column_def)
qed

lemma map_column_comp:
  "map_column key g (map_column key f d) = map_column key (g \<circ> f) d"
proof -
  have "(\<lambda>(n, cs). if n = key then (n, map g cs) else (n, cs)) \<circ>
        (\<lambda>(n, cs). if n = key then (n, map f cs) else (n, cs))
      = (\<lambda>(n, cs). if n = key then (n, map (g \<circ> f) cs) else (n, cs))"
    by (rule ext) auto
  then show ?thesis by (simp add: map_column_def)
qed

lemma strip_gdp_column_single:
  assumes "count_label ''gdp_for_year_$'' d = 1"
  shows "strip_gdp_column repr d
       = Inr (map_column ''gdp_for_year_$'' (\<lambda>c. Str (strip_currency (cell_str repr c))) d)"
proof -
  from assms obtain k s where f: "filter (\<lambda>(n, cs). n = ''gdp_for_year_$'') (columns d) = [(k, s)]"
    by (auto simp: count_label_def length_Suc_conv)
  have h: "has_column ''gdp_for_year_$'' d" using assms by (simp add: has_column_count)
  show ?thesis
    using f h filter_label_single [OF f, of "\<lambda>c. Str (strip_currency (cell_str repr c))"]
    by (simp add: strip_gdp_column_def getitem_def setitem_def map_column_def comp_def)
qed

lemma clean_gdp_for_year_absent:
  "count_label ''gdp_for_year_$'' d = 0 \<Longrightarrow> clean_gdp_for_year parse repr d = Inr d"
  by (simp add: clean_gdp_for_year_def has_column_count)

lemma clean_gdp_for_year_single:
  assumes "count_label ''gdp_for_year_$'' d = 1"
  shows "clean_gdp_for_year parse repr d = Inr (map_column ''gdp_for_year_$'' (gdp_cell parse repr) d)"
proof -
  have "gdp_cell parse repr = to_numeric_cell parse \<circ> (\<lambda>c. Str (strip_currency (cell_str repr c)))"
    by (auto simp: gdp_cell_def)
  then show ?thesis
    using assms
    by (simp add: clean_gdp_for_year_def has_column_count strip_gdp_column_single
        coerce_column_single map_column_comp)
qed

lemma clean_gdp_for_year_many:
  assumes "2 \<le> count_label ''gdp_for_year_$'' d"
  shows "clean_gdp_for_year parse repr d = Inl AttributeError"
proof -
  obtain m where "getitem ''gdp_for_year_$'' d = Inr (Frame m)"
    using getitem_many [OF assms] by blast
  then show ?thesis using assms
    by (simp add: clean_gdp_for_year_def has_column_count strip_gdp_column_def)
qed


lemma map_column_absent: "count_label key d = 0 \<Longrightarrow> map_column key f d = d"
proof -
  assume "count_label key d = 0"
  then have "\<forall>x \<in> set (columns d). fst x \<noteq> key"
    by (auto simp: count_label_def filter_empty_conv)
  then have "map (\<lambda>(n, cs). if n = key then (n, map f cs) else (n, cs)) (columns d) = columns d"
    by (induction "columns d") (auto intro!: map_idI)
  then show ?thesis by (simp add: map_column_def)
qed

lemma clean_gdp_for_year_le1:
  assumes "count_label ''gdp_for_year_$'' d \<le> 1"
  shows "clean_gdp_for_year parse repr d = Inr (map_column ''gdp_for_year_$'' (gdp_cell parse repr) d)"
proof (cases "count_label ''gdp_for_year_$'' d = 0")
  case True
  then show ?thesis by (simp add: clean_gdp_for_year_absent map_column_absent)
next
  case False
  with assms have "count_label ''gdp_for_year_$'' d = 1" by simp
  then show ?thesis by (rule clean_gdp_for_year_single)
qed

lemma clean_cell_other:
  "name \<noteq> ''suicides_no'' \<Longrightarrow> name \<noteq> ''gdp_per_capita_$'' \<Longrightarrow> name \<noteq> ''gdp_for_year_$''
   \<Longrightarrow> clean_cell parse repr name = (\<lambda>c. c)"
  by (rule ext) (simp add: clean_cell_def)

lemma clean_cell_numeric:
  "name = ''suicides_no'' \<or> name = ''gdp_per_capita_$''
   \<Longrightarrow> clean_cell parse repr name = to_numeric_cell parse"
  by (rule ext) (simp add: clean_cell_def)

lemma clean_cell_gdp:
  "clean_cell parse repr ''gdp_for_year_$'' = gdp_cell parse repr"
  by (rule ext) (simp add: clean_cell_def)

lemma cleaned_columns:
  "map (\<lambda>(n, cs). (if n = ''gdp_per_capita_$'' then ''gdp_per_capita'' else n, cs))
     (filter (\<lambda>(n, cs). n \<noteq> ''hdi_for_year'')
       (map (\<lambda>(n, cs). if n = ''gdp_for_year_$'' then (n, map (gdp_cell parse repr) cs) else (n, cs))
         (map (\<lambda>(n, cs). if n = ''gdp_per_capita_$'' then (n, map (to_numeric_cell parse) cs) else (n, cs))
           (map (\<lambda>(n, cs). if n = ''suicides_no'' then (n, map (to_numeric_cell parse) cs) else (n, cs))
             (map (\<lambda>(n, cs). (normalize_name lower n, cs)) xs)))))
   = map (clean_column lower parse repr) (filter (\<lambda>col. kept lower (fst col)) xs)"
proof (induction xs)
  case Nil
  show ?case by simp
next
  case (Cons x xs)
  obtain a b where x: "x = (a, b)" by (cases x)
  have "normalize_name lower a = ''suicides_no'' \<or> normalize_name lower a = ''gdp_per_capita_$'' \<or>
        normalize_name lower a = ''gdp_for_year_$'' \<or> normalize_name lower a = ''hdi_for_year'' \<or>
        (normalize_name lower a \<noteq> ''suicides_no'' \<and> normalize_name lower a \<noteq> ''gdp_per_capita_$'' \<and>
         normalize_name lower a \<noteq> ''gdp_for_year_$'' \<and> normalize_name lower a \<noteq> ''hdi_for_year'')"
    by blast
  then show ?case
    using Cons.IH unfolding x
    by (elim disjE)
      (simp_all add: clean_column_def kept_def final_name_def clean_cell_other
        clean_cell_numeric clean_cell_gdp)
qed

lemma pipeline_cleaned:
  "rename_column ''gdp_per_capita_$'' ''gdp_per_capita''
     (drop_column ''hdi_for_year''
       (map_column ''gdp_for_year_$'' (gdp_cell parse repr)
         (map_column ''gdp_per_capita_$'' (to_numeric_cell parse)
           (map_column ''suicides_no'' (to_numeric_cell parse) (standardize_columns lower d)))))
   = cleaned lower parse repr d"
  using cleaned_columns [where parse = parse and repr = repr and lower = lower and xs = "columns d"]
  by (simp add: rename_column_def drop_column_def map_column_def standardize_columns_def
      set_column_names_def cleaned_def)

lemma clean_dataset_cleanable:
  assumes "cleanable lower d"
  shows "clean_dataset lower parse repr d = Inr (cleaned lower parse repr d)"
  using assms
  by (simp add: clean_dataset_def cleanable_def occurs_def coerce_column_single
      clean_gdp_for_year_le1 pipeline_cleaned)

lemma clean_dataset_not_cleanable:
  assumes "\<not> cleanable lower d"
  shows "\<exists>e. clean_dataset lower parse repr d = Inl e"
proof -
  let ?d0 = "standardize_columns lower d"
  let ?T = "to_numeric_cell parse"
  consider (a) "count_label ''suicides_no'' ?d0 = 0"
    | (b) "2 \<le> count_label ''suicides_no'' ?d0"
    | (c) "count_label ''suicides_no'' ?d0 = 1" "count_label ''gdp_per_capita_$'' ?d0 = 0"
    | (d) "count_label ''suicides_no'' ?d0 = 1" "2 \<le> count_label ''gdp_per_capita_$'' ?d0"
    | (e) "count_label ''suicides_no'' ?d0 = 1" "count_label ''gdp_per_capita_$'' ?d0 = 1"
          "2 \<le> count_label ''gdp_for_year_$'' ?d0"
    using assms unfolding cleanable_def occurs_def by linarith
  then show ?thesis
  proof cases
    case a then show ?thesis by (simp add: clean_dataset_def coerce_column_absent)
  next
    case b then show ?thesis by (simp add: clean_dataset_def coerce_column_many)
  next
    case c then show ?thesis
      by (simp add: clean_dataset_def coerce_column_single coerce_column_absent)
  next
    case d then show ?thesis
      by (simp add: clean_dataset_def coerce_column_single coerce_column_many)
  next
    case e then show ?thesis
      by (simp add: clean_dataset_def coerce_column_single clean_gdp_for_year_many)
  qed
qed

lemma clean_dataset_Inr_iff:
  "clean_dataset lower parse repr d = Inr d' \<longleftrightarrow> cleanable lower d \<and> d' = cleaned lower parse repr d"
  using clean_dataset_cleanable [where d = d and lower = lower and parse = parse and repr = repr]
    clean_dataset_not_cleanable [where d = d and lower = lower and parse = parse and repr = repr]
  by (cases "cleanable lower d") auto

section \<open>The closed form of the result\<close>

lemma index_cleaned [simp]: "index (cleaned lower parse repr d) = index d"
  by (simp add: cleaned_def)

lemma columns_cleaned:
  "columns (cleaned lower parse repr d)
     = map (clean_column lower parse repr) (filter (\<lambda>col. kept lower (fst col)) (columns d))"
  by (simp add: cleaned_def)

lemma wf_frame_cleaned: "wf_frame d \<Longrightarrow> wf_frame (cleaned lower parse repr d)"
  by (auto simp: wf_frame_def columns_cleaned list_all_iff clean_column_def)

lemma row_cleaned_aux:
  "\<forall>col \<in> set xs. i < length (snd col) \<Longrightarrow>
   map (\<lambda>(n, cs). (n, cs ! i)) (map (clean_column lower parse repr) (filter (\<lambda>col. kept lower (fst col)) xs))
   = clean_row lower parse repr (map (\<lambda>(n, cs). (n, cs ! i)) xs)"
  by (induction xs) (auto simp: clean_column_def clean_row_def)

lemma row_cleaned:
  assumes "wf_frame d" "i < nrows d"
  shows "row (cleaned lower parse repr d) i = clean_row lower parse repr (row d i)"
proof -
  have "\<forall>col \<in> set (columns d). i < length (snd col)"
    using assms by (auto simp: wf_frame_def nrows_def list_all_iff)
  then show ?thesis
    unfolding row_def columns_cleaned by (rule row_cleaned_aux)
qed

section \<open>The sample tables, evaluated\<close>

lemma albania_wf: "wf_frame albania"
  by code_simp

lemma albania_result: "clean_dataset sample_lower sample_parse sample_repr albania = Inr albania_clean"
  by code_simp

lemma no_gdp_for_year_result:
  "clean_dataset sample_lower sample_parse sample_repr no_gdp_for_year = Inr no_gdp_for_year_clean"
  by code_simp

section \<open>Rows\<close>

text \<open>
  C1. When \<open>clean_dataset\<close> returns a table, the table has as many rows as the input and
  the same row index, every column still has one cell per row, and the \<open>i\<close>-th row
  returned is the cleaning of the \<open>i\<close>-th row passed in: no row is filtered out and no
  row changes its place.
\<close>

theorem clean_dataset_rows:
  assumes "wf_frame d" and "clean_dataset lower parse repr d = Inr d'"
  shows "nrows d' = nrows d \<and> index d' = index d \<and> wf_frame d' \<and>
         (\<forall>i < nrows d. row d' i = clean_row lower parse repr (row d i))"
proof -
  have d': "d' = cleaned lower parse repr d"
    using assms(2) by (simp add: clean_dataset_Inr_iff)
  show ?thesis
    unfolding d' using assms(1)
    by (simp add: nrows_def wf_frame_cleaned row_cleaned)
qed

theorem clean_dataset_rows_witness:
  "wf_frame albania \<and>
   clean_dataset sample_lower sample_parse sample_repr albania = Inr albania_clean \<and>
   nrows albania_clean = nrows albania \<and> index albania_clean = index albania \<and>
   wf_frame albania_clean \<and>
   row albania_clean 1 = clean_row sample_lower sample_parse sample_repr (row albania 1)"
proof -
  have n: "(1::nat) < nrows albania" by code_simp
  show ?thesis
    using clean_dataset_rows [OF albania_wf albania_result] albania_wf albania_result n
    by blast
qed

section \<open>Numeric coercion\<close>

lemma getitem_single:
  assumes "count_label key d = 1" "(key, cs) \<in> set (columns d)"
  shows "getitem key d = Inr (Series cs)"
proof -
  from assms(1) obtain x where f: "filter (\<lambda>(n, cs). n = key) (columns d) = [x]"
    by (auto simp: count_label_def length_Suc_conv)
  have "(key, cs) \<in> set (filter (\<lambda>(n, cs). n = key) (columns d))"
    using assms(2) by simp
  with f have "x = (key, cs)" by simp
  with f show ?thesis by (simp add: getitem_def)
qed

lemma mem_map_column:
  "(n, cs) \<in> set (columns d) \<Longrightarrow>
   (n, if n = key then map f cs else cs) \<in> set (columns (map_column key f d))"
  by (force simp: map_column_def)

lemma mem_standardize:
  "col \<in> set (columns d) \<Longrightarrow>
   (normalize_name lower (fst col), snd col) \<in> set (columns (standardize_columns lower d))"
  by (force simp: standardize_columns_def set_column_names_def)

lemma numeric_or_missing_to_numeric [simp]: "numeric_or_missing (to_numeric_cell parse c)"
  by (cases c) (auto split: option.splits)

lemma getitem_coerced:
  assumes "occurs lower key d = 1" "col \<in> set (columns d)" "normalize_name lower (fst col) = key"
    "key = ''suicides_no'' \<or> key = ''gdp_per_capita_$''"
  shows "getitem key (coerced lower parse d) = Inr (Series (map (to_numeric_cell parse) (snd col)))"
proof -
  have c: "count_label key (coerced lower parse d) = 1"
    using assms(1) by (simp add: coerced_def occurs_def)
  have m0: "(key, snd col) \<in> set (columns (standardize_columns lower d))"
    using mem_standardize [where lower = lower, OF assms(2)] assms(3) by simp
  have "(key, map (to_numeric_cell parse) (snd col)) \<in> set (columns (coerced lower parse d))"
    using assms(4)
  proof
    assume k: "key = ''suicides_no''"
    from mem_map_column [OF m0, of "''suicides_no''" "to_numeric_cell parse"] k
    have "(key, map (to_numeric_cell parse) (snd col))
          \<in> set (columns (map_column ''suicides_no'' (to_numeric_cell parse) (standardize_columns lower d)))"
      by simp
    from mem_map_column [OF this, of "''gdp_per_capita_$''" "to_numeric_cell parse"] k
    show ?thesis by (simp add: coerced_def)
  next
    assume k: "key = ''gdp_per_capita_$''"
    from mem_map_column [OF m0, of "''suicides_no''" "to_numeric_cell parse"] k
    have "(key, snd col)
          \<in> set (columns (map_column ''suicides_no'' (to_numeric_cell parse) (standardize_columns lower d)))"
      by simp
    from mem_map_column [OF this, of "''gdp_per_capita_$''" "to_numeric_cell parse"] k
    show ?thesis by (simp add: coerced_def)
  qed
  with c show ?thesis by (rule getitem_single)
qed

lemma count_label_cleaned:
  assumes "key \<noteq> ''gdp_per_capita_$''" "key \<noteq> ''gdp_per_capita''" "key \<noteq> ''hdi_for_year''"
  shows "count_label key (cleaned lower parse repr d) = occurs lower key d"
proof -
  have "filter (\<lambda>(n, cs). n = key)
          (map (clean_column lower parse repr) (filter (\<lambda>col. kept lower (fst col)) xs))
      = map (clean_column lower parse repr)
          (filter (\<lambda>(n, cs). normalize_name lower n = key) xs)" for xs
    using assms by (induction xs) (auto simp: clean_column_def kept_def final_name_def)
  moreover have "filter (\<lambda>(n, cs). n = key) (map (\<lambda>(n, cs). (normalize_name lower n, cs)) xs)
      = map (\<lambda>(n, cs). (normalize_name lower n, cs))
          (filter (\<lambda>(n, cs). normalize_name lower n = key) xs)" for xs :: "(string \<times> 'a cell list) list"
    by (induction xs) auto
  ultimately show ?thesis
    by (simp add: count_label_def columns_cleaned occurs_def standardize_columns_def
        set_column_names_def)
qed

lemma mem_cleaned:
  "col \<in> set (columns d) \<Longrightarrow> kept lower (fst col) \<Longrightarrow>
   clean_column lower parse repr col \<in> set (columns (cleaned lower parse repr d))"
  by (simp add: columns_cleaned)

lemma cleaned_numeric_column:
  assumes "col \<in> set (columns d)"
    and "normalize_name lower (fst col) = ''suicides_no'' \<or>
         normalize_name lower (fst col) = ''gdp_per_capita_$''"
  shows "(final_name (normalize_name lower (fst col)), map (to_numeric_cell parse) (snd col))
           \<in> set (columns (cleaned lower parse repr d))"
proof -
  have "kept lower (fst col)" using assms(2) by (auto simp: kept_def)
  with assms(1) have "clean_column lower parse repr col \<in> set (columns (cleaned lower parse repr d))"
    by (rule mem_cleaned)
  then show ?thesis
    using assms(2) by (simp add: clean_column_def clean_cell_numeric)
qed

text \<open>
  C2. Let \<open>suicides_no\<close> and \<open>gdp_per_capita_$\<close> each label one column of the normalised
  table. Then \<open>clean_dataset\<close> returns the cleaned table, or raises the
  \<open>AttributeError\<close> of line 111 (a repeated GDP-per-year label): the numeric coercion of
  lines 106 and 107 does not raise. In the table returned, the column \<open>suicides_no\<close> and
  the column that line 118 names \<open>gdp_per_capita\<close> hold the cell-wise coercion of the
  input columns, every cell of them is a number or the missing marker, and a string that
  does not parse has become the missing marker. The same holds of the frame after line
  107.
\<close>

theorem numeric_coercion_never_raises:
  assumes "occurs lower ''suicides_no'' d = 1" and "occurs lower ''gdp_per_capita_$'' d = 1"
  shows "(clean_dataset lower parse repr d = Inr (cleaned lower parse repr d) \<or>
          clean_dataset lower parse repr d = Inl AttributeError) \<and>
         (\<forall>d'. clean_dataset lower parse repr d = Inr d' \<longrightarrow>
            (\<forall>col \<in> set (columns d).
               (normalize_name lower (fst col) = ''suicides_no'' \<longrightarrow>
                  getitem ''suicides_no'' d'
                    = Inr (Series (map (to_numeric_cell parse) (snd col)))) \<and>
               (normalize_name lower (fst col) = ''gdp_per_capita_$'' \<longrightarrow>
                  (''gdp_per_capita'', map (to_numeric_cell parse) (snd col))
                    \<in> set (columns d')))) \<and>
         run_steps parse repr [CoerceSuicides, CoerceGdpPerCapita] (standardize_columns lower d)
           = Inr (coerced lower parse d) \<and>
         (\<forall>col \<in> set (columns d).
            normalize_name lower (fst col) = ''suicides_no'' \<or>
            normalize_name lower (fst col) = ''gdp_per_capita_$'' \<longrightarrow>
              getitem (normalize_name lower (fst col)) (coerced lower parse d)
                = Inr (Series (map (to_numeric_cell parse) (snd col))) \<and>
              list_all numeric_or_missing (map (to_numeric_cell parse) (snd col))) \<and>
         (\<forall>s. parse s = None \<longrightarrow> to_numeric_cell parse (Str s) = NaN)"
proof -
  have ret: "clean_dataset lower parse repr d = Inr (cleaned lower parse repr d) \<or>
          clean_dataset lower parse repr d = Inl AttributeError"
  proof (cases "occurs lower ''gdp_for_year_$'' d \<le> 1")
    case True
    with assms have "cleanable lower d" by (simp add: cleanable_def)
    then show ?thesis by (simp add: clean_dataset_cleanable)
  next
    case False
    then have "2 \<le> count_label ''gdp_for_year_$'' (standardize_columns lower d)"
      by (simp add: occurs_def)
    then have "clean_dataset lower parse repr d = Inl AttributeError"
      using assms
      by (simp add: clean_dataset_def occurs_def coerce_column_single clean_gdp_for_year_many)
    then show ?thesis by simp
  qed
  have out: "(normalize_name lower (fst col) = ''suicides_no'' \<longrightarrow>
                  getitem ''suicides_no'' d'
                    = Inr (Series (map (to_numeric_cell parse) (snd col)))) \<and>
               (normalize_name lower (fst col) = ''gdp_per_capita_$'' \<longrightarrow>
                  (''gdp_per_capita'', map (to_numeric_cell parse) (snd col))
                    \<in> set (columns d'))"
    if r: "clean_dataset lower parse repr d = Inr d'" and col: "col \<in> set (columns d)"
    for d' col
  proof -
    have d': "d' = cleaned lower parse repr d"
      using r by (simp add: clean_dataset_Inr_iff)
    have one: "count_label ''suicides_no'' d' = 1"
      unfolding d' using assms(1) by (simp add: count_label_cleaned)
    show ?thesis
    proof (intro conjI impI)
      assume k: "normalize_name lower (fst col) = ''suicides_no''"
      with cleaned_numeric_column [OF col, where lower = lower and parse = parse and repr = repr]
      have "(''suicides_no'', map (to_numeric_cell parse) (snd col)) \<in> set (columns d')"
        by (simp add: d' final_name_def)
      with one show "getitem ''suicides_no'' d'
                    = Inr (Series (map (to_numeric_cell parse) (snd col)))"
        by (rule getitem_single)
    next
      assume k: "normalize_name lower (fst col) = ''gdp_per_capita_$''"
      with cleaned_numeric_column [OF col, where lower = lower and parse = parse and repr = repr]
      show "(''gdp_per_capita'', map (to_numeric_cell parse) (snd col)) \<in> set (columns d')"
        by (simp add: d' final_name_def)
    qed
  qed
  have steps: "run_steps parse repr [CoerceSuicides, CoerceGdpPerCapita] (standardize_columns lower d)
           = Inr (coerced lower parse d)"
    using assms by (simp add: occurs_def coerce_column_single coerced_def)
  have mid: "getitem (normalize_name lower (fst col)) (coerced lower parse d)
                = Inr (Series (map (to_numeric_cell parse) (snd col))) \<and>
              list_all numeric_or_missing (map (to_numeric_cell parse) (snd col))"
    if col: "col \<in> set (columns d)"
      and k: "normalize_name lower (fst col) = ''suicides_no'' \<or>
              normalize_name lower (fst col) = ''gdp_per_capita_$''"
    for col
  proof -
    have "occurs lower (normalize_name lower (fst col)) d = 1" using k assms by auto
    then have "getitem (normalize_name lower (fst col)) (coerced lower parse d)
                = Inr (Series (map (to_numeric_cell parse) (snd col)))"
      using col k by (intro getitem_coerced) auto
    then show ?thesis by (simp add: list_all_iff)
  qed
  have miss: "\<forall>s. parse s = None \<longrightarrow> to_numeric_cell parse (Str s) = NaN"
    by simp
  from ret out steps mid miss show ?thesis by blast
qed

lemma albania_occurs:
  "occurs sample_lower ''suicides_no'' albania = 1"
  "occurs sample_lower ''gdp_per_capita_$'' albania = 1"
  "occurs sample_lower ''gdp_for_year_$'' albania = 1"
  by code_simp+

theorem numeric_coercion_never_raises_witness:
  "occurs sample_lower ''suicides_no'' albania = 1 \<and>
   occurs sample_lower ''gdp_per_capita_$'' albania = 1 \<and>
   clean_dataset sample_lower sample_parse sample_repr albania = Inr albania_clean \<and>
   getitem ''suicides_no'' albania_clean = Inr (Series [Num 21, NaN]) \<and>
   (''gdp_per_capita'', [Num 796, Num 769]) \<in> set (columns albania_clean) \<and>
   run_steps sample_parse sample_repr [CoerceSuicides, CoerceGdpPerCapita]
     (standardize_columns sample_lower albania) = Inr (coerced sample_lower sample_parse albania) \<and>
   getitem ''gdp_per_capita_$'' (coerced sample_lower sample_parse albania)
     = Inr (Series [Num 796, Num 769]) \<and>
   sample_parse ''abc'' = None \<and> to_numeric_cell sample_parse (Str ''abc'') = NaN"
proof -
  note t = numeric_coercion_never_raises [OF albania_occurs(1) albania_occurs(2),
      where parse = sample_parse and repr = sample_repr]
  have a: "(''suicides_no'', [Num 21, Str ''abc'']) \<in> set (columns albania)"
    by (simp add: albania_def)
  have b: "(''gdp_per_capita ($)'', [Num 796, Str ''769'']) \<in> set (columns albania)"
    by (simp add: albania_def)
  have na: "normalize_name sample_lower (fst (''suicides_no'', [Num 21, Str ''abc'']))
            = ''suicides_no''" by code_simp
  have nb: "normalize_name sample_lower (fst (''gdp_per_capita ($)'', [Num 796, Str ''769'']))
            = ''gdp_per_capita_$''" by code_simp
  have ma: "map (to_numeric_cell sample_parse) (snd (''suicides_no'', [Num 21, Str ''abc'']))
            = [Num 21, NaN]" by code_simp
  have mb: "map (to_numeric_cell sample_parse) (snd (''gdp_per_capita ($)'', [Num 796, Str ''769'']))
            = [Num 796, Num 769]" by code_simp
  have p: "sample_parse ''abc'' = None" by code_simp
  from t albania_result a na
  have "getitem ''suicides_no'' albania_clean
          = Inr (Series (map (to_numeric_cell sample_parse) (snd (''suicides_no'', [Num 21, Str ''abc'']))))"
    by blast
  then have 1: "getitem ''suicides_no'' albania_clean = Inr (Series [Num 21, NaN])"
    by (simp only: ma)
  from t albania_result b nb
  have "(''gdp_per_capita'', map (to_numeric_cell sample_parse) (snd (''gdp_per_capita ($)'', [Num 796, Str ''769''])))
          \<in> set (columns albania_clean)"
    by blast
  then have 2: "(''gdp_per_capita'', [Num 796, Num 769]) \<in> set (columns albania_clean)"
    by (simp only: mb)
  from t b nb
  have "getitem (normalize_name sample_lower (fst (''gdp_per_capita ($)'', [Num (796::int), Str ''769''])))
          (coerced sample_lower sample_parse albania)
        = Inr (Series (map (to_numeric_cell sample_parse) (snd (''gdp_per_capita ($)'', [Num 796, Str ''769'']))))"
    by blast
  then have 3: "getitem ''gdp_per_capita_$'' (coerced sample_lower sample_parse albania)
     = Inr (Series [Num 796, Num 769])"
    by (simp only: nb mb)
  from t p have 4: "to_numeric_cell sample_parse (Str ''abc'') = NaN" by blast
  from t have 5: "run_steps sample_parse sample_repr [CoerceSuicides, CoerceGdpPerCapita]
     (standardize_columns sample_lower albania) = Inr (coerced sample_lower sample_parse albania)"
    by blast
  from 1 2 3 4 5 p albania_occurs albania_result show ?thesis by blast
qed

section \<open>Absent columns\<close>

text \<open>
  C3, as the claim states it, fails: a table without the GDP-per-year column, with
  \<open>suicides_no\<close> and the GDP-per-capita column present, is cleaned and returned. Line
  110 guards the statements that refer to \<open>gdp_for_year_$\<close>.
\<close>

theorem missing_column_counterexample:
  "occurs sample_lower ''gdp_for_year_$'' no_gdp_for_year = 0 \<and>
   clean_dataset sample_lower sample_parse sample_repr no_gdp_for_year = Inr no_gdp_for_year_clean"
proof -
  have "occurs sample_lower ''gdp_for_year_$'' no_gdp_for_year = 0" by code_simp
  then show ?thesis using no_gdp_for_year_result by simp
qed

text \<open>
  C3, amended. When no normalised label is \<open>suicides_no\<close>, or none is
  \<open>gdp_per_capita_$\<close>, \<open>clean_dataset\<close> raises and returns no table. When no normalised
  label is \<open>gdp_for_year_$\<close> and the other two label one column each, \<open>clean_dataset\<close>
  returns the cleaned table.
  In the first case the exception is known in two situations: it is the \<open>KeyError\<close> for
  \<open>suicides_no\<close> when that label is absent, and the \<open>KeyError\<close> for \<open>gdp_per_capita_$\<close>
  when that label is absent and \<open>suicides_no\<close> labels one column.
\<close>

theorem missing_column_fatal:
  "(occurs lower ''suicides_no'' d = 0 \<or> occurs lower ''gdp_per_capita_$'' d = 0 \<longrightarrow>
      (\<exists>e. clean_dataset lower parse repr d = Inl e)) \<and>
   (occurs lower ''gdp_for_year_$'' d = 0 \<and> occurs lower ''suicides_no'' d = 1 \<and>
    occurs lower ''gdp_per_capita_$'' d = 1 \<longrightarrow>
      clean_dataset lower parse repr d = Inr (cleaned lower parse repr d)) \<and>
   (occurs lower ''suicides_no'' d = 0 \<longrightarrow>
      clean_dataset lower parse repr d = Inl (KeyError ''suicides_no'')) \<and>
   (occurs lower ''gdp_per_capita_$'' d = 0 \<and> occurs lower ''suicides_no'' d = 1 \<longrightarrow>
      clean_dataset lower parse repr d = Inl (KeyError ''gdp_per_capita_$''))"
proof (intro conjI impI)
  assume "occurs lower ''suicides_no'' d = 0 \<or> occurs lower ''gdp_per_capita_$'' d = 0"
  then have "\<not> cleanable lower d" by (auto simp: cleanable_def)
  then show "\<exists>e. clean_dataset lower parse repr d = Inl e"
    by (rule clean_dataset_not_cleanable)
next
  assume "occurs lower ''gdp_for_year_$'' d = 0 \<and> occurs lower ''suicides_no'' d = 1 \<and>
    occurs lower ''gdp_per_capita_$'' d = 1"
  then have "cleanable lower d" by (simp add: cleanable_def)
  then show "clean_dataset lower parse repr d = Inr (cleaned lower parse repr d)"
    by (rule clean_dataset_cleanable)
next
  assume "occurs lower ''suicides_no'' d = 0"
  then show "clean_dataset lower parse repr d = Inl (KeyError ''suicides_no'')"
    by (simp add: clean_dataset_def occurs_def coerce_column_absent)
next
  assume "occurs lower ''gdp_per_capita_$'' d = 0 \<and> occurs lower ''suicides_no'' d = 1"
  then show "clean_dataset lower parse repr d = Inl (KeyError ''gdp_per_capita_$'')"
    by (simp add: clean_dataset_def occurs_def coerce_column_single coerce_column_absent)
qed

theorem missing_column_fatal_witness:
  "occurs sample_lower ''suicides_no'' no_suicides_no = 0 \<and>
   clean_dataset sample_lower sample_parse sample_repr no_suicides_no
     = Inl (KeyError ''suicides_no'') \<and>
   occurs sample_lower ''gdp_per_capita_$'' no_gdp_per_capita = 0 \<and>
   occurs sample_lower ''suicides_no'' no_gdp_per_capita = 1 \<and>
   clean_dataset sample_lower sample_parse sample_repr no_gdp_per_capita
     = Inl (KeyError ''gdp_per_capita_$'') \<and>
   occurs sample_lower ''gdp_for_year_$'' no_gdp_for_year = 0 \<and>
   occurs sample_lower ''suicides_no'' no_gdp_for_year = 1 \<and>
   occurs sample_lower ''gdp_per_capita_$'' no_gdp_for_year = 1 \<and>
   clean_dataset sample_lower sample_parse sample_repr no_gdp_for_year
     = Inr (cleaned sample_lower sample_parse sample_repr no_gdp_for_year)"
proof -
  have a: "occurs sample_lower ''suicides_no'' no_suicides_no = 0" by code_simp
  have b: "occurs sample_lower ''gdp_per_capita_$'' no_gdp_per_capita = 0" by code_simp
  have c: "occurs sample_lower ''suicides_no'' no_gdp_per_capita = 1" by code_simp
  have d: "occurs sample_lower ''gdp_for_year_$'' no_gdp_for_year = 0" by code_simp
  have e: "occurs sample_lower ''suicides_no'' no_gdp_for_year = 1" by code_simp
  have f: "occurs sample_lower ''gdp_per_capita_$'' no_gdp_for_year = 1" by code_simp
  show ?thesis
    using a b c d e f
      missing_column_fatal [where lower = sample_lower and d = no_suicides_no
        and parse = sample_parse and repr = sample_repr]
      missing_column_fatal [where lower = sample_lower and d = no_gdp_per_capita
        and parse = sample_parse and repr = sample_repr]
      missing_column_fatal [where lower = sample_lower and d = no_gdp_for_year
        and parse = sample_parse and repr = sample_repr]
    by blast
qed

section \<open>The GDP-per-year column\<close>

lemma strip_currency_free [simp]:
  "CHR ''$'' \<notin> set (strip_currency s)" "CHR '','' \<notin> set (strip_currency s)"
  by (simp_all add: strip_currency_def)

lemma count_label_drop_other:
  "key' \<noteq> key \<Longrightarrow> count_label key' (drop_column key d) = count_label key' d"
proof -
  assume k: "key' \<noteq> key"
  have "filter (\<lambda>(n, cs). n = key') (filter (\<lambda>(n, cs). n \<noteq> key) xs)
      = filter (\<lambda>(n, cs). n = key') xs" for xs :: "(string \<times> 'a cell list) list"
    using k by (induction xs) auto
  then show ?thesis by (simp add: count_label_def drop_column_def)
qed

lemma gdp_cell_cases:
  "gdp_cell parse repr c =
     (case c of
        Num x \<Rightarrow> to_numeric_cell parse (Str (strip_currency (repr x)))
      | Str s \<Rightarrow> to_numeric_cell parse (Str (strip_currency s))
      | NaN \<Rightarrow> to_numeric_cell parse (Str ''nan''))"
  by (cases c) (simp_all add: gdp_cell_def strip_currency_def)

text \<open>
  C4. When \<open>clean_dataset\<close> returns a table and a column of the input has the
  normalised label \<open>gdp_for_year_$\<close>, the column with that label in the result holds,
  for every cell of the input column, the string of the cell (the printed number for a
  number, \<open>nan\<close> for the missing marker, the string itself for a string) with every
  \<open>$\<close> and every comma removed, parsed as a number, and the missing marker where the parse
  fails. The cell \<open>"1,234,567"\<close> is stripped to \<open>1234567\<close> and yields the number that
  this string parses to.
\<close>

theorem gdp_for_year_cleaned:
  assumes "clean_dataset lower parse repr d = Inr d'" and "col \<in> set (columns d)"
    and "normalize_name lower (fst col) = ''gdp_for_year_$''"
  shows "getitem ''gdp_for_year_$'' d'
           = Inr (Series (map (\<lambda>c. case c of
                                  Num x \<Rightarrow> to_numeric_cell parse (Str (strip_currency (repr x)))
                                | Str s \<Rightarrow> to_numeric_cell parse (Str (strip_currency s))
                                | NaN \<Rightarrow> to_numeric_cell parse (Str ''nan''))
                            (snd col))) \<and>
         (\<forall>s. CHR ''$'' \<notin> set (strip_currency s) \<and> CHR '','' \<notin> set (strip_currency s) \<and>
              strip_currency s = filter (\<lambda>c. c \<noteq> CHR ''$'' \<and> c \<noteq> CHR '','') s) \<and>
         (\<forall>s. parse (strip_currency s) = None \<longrightarrow>
              to_numeric_cell parse (Str (strip_currency s)) = NaN) \<and>
         (\<forall>s x. parse (strip_currency s) = Some x \<longrightarrow>
              to_numeric_cell parse (Str (strip_currency s)) = Num x) \<and>
         strip_currency ''1,234,567'' = ''1234567'' \<and>
         (\<forall>x. parse ''1234567'' = Some x \<longrightarrow>
              to_numeric_cell parse (Str (strip_currency ''1,234,567'')) = Num x)"
proof -
  have cl: "cleanable lower d" and d': "d' = cleaned lower parse repr d"
    using assms(1) by (simp_all add: clean_dataset_Inr_iff)
  have k: "kept lower (fst col)" using assms(3) by (simp add: kept_def)
  have "(normalize_name lower (fst col), snd col) \<in> set (columns (standardize_columns lower d))"
    using assms(2) by (rule mem_standardize)
  then have "count_label ''gdp_for_year_$'' (standardize_columns lower d) \<noteq> 0"
    using assms(3) by (force simp: count_label_def filter_empty_conv)
  with cl have one: "occurs lower ''gdp_for_year_$'' d = 1"
    by (simp add: cleanable_def occurs_def)
  have "clean_column lower parse repr col \<in> set (columns d')"
    unfolding d' using assms(2) k by (rule mem_cleaned)
  then have m: "(''gdp_for_year_$'', map (gdp_cell parse repr) (snd col)) \<in> set (columns d')"
    using assms(3) by (simp add: clean_column_def final_name_def clean_cell_gdp)
  have "count_label ''gdp_for_year_$'' d' = 1"
    unfolding d' using one by (simp add: count_label_cleaned)
  then have "getitem ''gdp_for_year_$'' d' = Inr (Series (map (gdp_cell parse repr) (snd col)))"
    using m by (rule getitem_single)
  moreover have "gdp_cell parse repr =
      (\<lambda>c. case c of
              Num x \<Rightarrow> to_numeric_cell parse (Str (strip_currency (repr x)))
            | Str s \<Rightarrow> to_numeric_cell parse (Str (strip_currency s))
            | NaN \<Rightarrow> to_numeric_cell parse (Str ''nan''))"
    by (rule ext) (rule gdp_cell_cases)
  moreover have "strip_currency ''1,234,567'' = ''1234567''"
    by (simp add: strip_currency_def)
  moreover have "strip_currency s = filter (\<lambda>c. c \<noteq> CHR ''$'' \<and> c \<noteq> CHR '','') s" for s
    by (simp add: strip_currency_def)
  ultimately show ?thesis by simp
qed

lemma mixed_gdp_result:
  "clean_dataset sample_lower sample_parse sample_repr mixed_gdp = Inr mixed_gdp_clean"
  by code_simp

theorem gdp_for_year_cleaned_witness:
  "clean_dataset sample_lower sample_parse sample_repr albania = Inr albania_clean \<and>
   (''gdp_for_year ($)'', [Str ''2,156,624,900'', Str ''1,234,567'']) \<in> set (columns albania) \<and>
   normalize_name sample_lower ''gdp_for_year ($)'' = ''gdp_for_year_$'' \<and>
   getitem ''gdp_for_year_$'' albania_clean = Inr (Series [Num 2156624900, Num 1234567]) \<and>
   clean_dataset sample_lower sample_parse sample_repr mixed_gdp = Inr mixed_gdp_clean \<and>
   (''gdp_for_year ($)'', [Num 5, Str ''$1,000'', NaN]) \<in> set (columns mixed_gdp) \<and>
   getitem ''gdp_for_year_$'' mixed_gdp_clean = Inr (Series [Num 5, Num 1000, NaN]) \<and>
   sample_parse ''1234567'' = Some 1234567 \<and>
   to_numeric_cell sample_parse (Str (strip_currency ''1,234,567'')) = Num 1234567"
proof -
  have a: "(''gdp_for_year ($)'', [Str ''2,156,624,900'', Str ''1,234,567'']) \<in> set (columns albania)"
    by (simp add: albania_def)
  have b: "(''gdp_for_year ($)'', [Num 5, Str ''$1,000'', NaN]) \<in> set (columns mixed_gdp)"
    by (simp add: mixed_gdp_def)
  have na: "normalize_name sample_lower (fst (''gdp_for_year ($)'', [Str ''2,156,624,900'', Str ''1,234,567'']))
           = ''gdp_for_year_$''"
    by code_simp
  have nb: "normalize_name sample_lower (fst (''gdp_for_year ($)'', [Num (5::int), Str ''$1,000'', NaN]))
           = ''gdp_for_year_$''"
    by code_simp
  have n: "normalize_name sample_lower ''gdp_for_year ($)'' = ''gdp_for_year_$''"
    by code_simp
  have p: "sample_parse ''1234567'' = Some 1234567" by code_simp
  have ea: "map (\<lambda>c. case c of
                  Num x \<Rightarrow> to_numeric_cell sample_parse (Str (strip_currency (sample_repr x)))
                | Str s \<Rightarrow> to_numeric_cell sample_parse (Str (strip_currency s))
                | NaN \<Rightarrow> to_numeric_cell sample_parse (Str ''nan''))
              (snd (''gdp_for_year ($)'', [Str ''2,156,624,900'', Str ''1,234,567'']))
            = [Num 2156624900, Num 1234567]"
    by code_simp
  have eb: "map (\<lambda>c. case c of
                  Num x \<Rightarrow> to_numeric_cell sample_parse (Str (strip_currency (sample_repr x)))
                | Str s \<Rightarrow> to_numeric_cell sample_parse (Str (strip_currency s))
                | NaN \<Rightarrow> to_numeric_cell sample_parse (Str ''nan''))
              (snd (''gdp_for_year ($)'', [Num 5, Str ''$1,000'', NaN]))
            = [Num 5, Num 1000, NaN]"
    by code_simp
  note ta = gdp_for_year_cleaned [OF albania_result a na]
  note tb = gdp_for_year_cleaned [OF mixed_gdp_result b nb]
  from ta have 1: "getitem ''gdp_for_year_$'' albania_clean = Inr (Series [Num 2156624900, Num 1234567])"
    by (simp only: ea)
  from tb have 2: "getitem ''gdp_for_year_$'' mixed_gdp_clean = Inr (Series [Num 5, Num 1000, NaN])"
    by (simp only: eb)
  from ta p have 3: "to_numeric_cell sample_parse (Str (strip_currency ''1,234,567'')) = Num 1234567"
    by blast
  from 1 2 3 a b n p albania_result mixed_gdp_result show ?thesis by blast
qed

section \<open>Column names\<close>

lemma set_str_replace:
  "set (str_replace pat repl s) = (set s - {pat}) \<union> (if pat \<in> set s then set repl else {})"
  by (induction s) (auto simp: str_replace_def)

lemma normalize_name_chars:
  assumes "c \<in> set (normalize_name lower s)"
  shows "c \<noteq> CHR '' ''" "c \<noteq> CHR ''(''" "c \<noteq> CHR '')''" "c \<in> set (lower s) \<or> c = CHR ''_''"
  using assms by (auto simp: normalize_name_def set_str_replace split: if_splits)

lemma final_name_chars:
  assumes "c \<in> set (final_name name)"
  shows "c \<in> set name \<or> c \<in> set ''gdp_per_capita''"
  using assms by (simp add: final_name_def split: if_splits)

lemma sample_lower_no_upper: "c \<in> set (sample_lower s) \<Longrightarrow> \<not> ascii_upper c"
proof -
  have "\<not> ascii_upper (sample_lower_char a)" for a
  proof (cases "ascii_upper a")
    case True
    then have "(of_char a :: nat) + 32 < 256" by (simp add: ascii_upper_def)
    then have "(of_char (char_of ((of_char a :: nat) + 32)) :: nat) = of_char a + 32"
      by simp
    with True show ?thesis by (simp add: sample_lower_char_def ascii_upper_def)
  next
    case False
    then show ?thesis by (simp add: sample_lower_char_def)
  qed
  moreover assume "c \<in> set (sample_lower s)"
  ultimately show ?thesis by (auto simp: sample_lower_def)
qed

lemma column_names_cleaned:
  "column_names (cleaned lower parse repr d)
     = map (\<lambda>name. final_name (normalize_name lower name)) (filter (kept lower) (column_names d))"
proof -
  have "map fst (map (clean_column lower parse repr) (filter (\<lambda>col. kept lower (fst col)) xs))
      = map (\<lambda>name. final_name (normalize_name lower name)) (filter (kept lower) (map fst xs))" for xs
    by (induction xs) (auto simp: clean_column_def)
  then show ?thesis by (simp add: column_names_def columns_cleaned)
qed

lemma upsilon_result:
  "clean_dataset sample_lower sample_parse sample_repr upsilon = Inr upsilon_clean"
  by code_simp

text \<open>
  C5, as the claim states it, fails twice. The table returned for \<open>albania\<close> has a column
  named \<open>gdp_per_capita\<close>, and no name of the input normalises to it: the original name
  \<open>gdp_per_capita ($)\<close> normalises to \<open>gdp_per_capita_$\<close>, which line 118 renames. And the
  table returned for \<open>upsilon\<close> keeps the column name U+03D2, an uppercase letter that
  \<open>str.lower()\<close> does not change.
\<close>

theorem column_names_counterexample:
  "clean_dataset sample_lower sample_parse sample_repr albania = Inr albania_clean \<and>
   column_names albania_clean
     = [''country'', ''year'', ''suicides_no'', ''gdp_for_year_$'', ''gdp_per_capita''] \<and>
   map (normalize_name sample_lower) (column_names albania)
     = [''country'', ''year'', ''suicides_no'', ''gdp_for_year_$'', ''gdp_per_capita_$'',
        ''hdi_for_year''] \<and>
   ''gdp_per_capita'' \<in> set (column_names albania_clean) \<and>
   ''gdp_per_capita'' \<notin> set (map (normalize_name sample_lower) (column_names albania)) \<and>
   clean_dataset sample_lower sample_parse sample_repr upsilon = Inr upsilon_clean \<and>
   [CHR 0xCF, CHR 0x92] \<in> set (column_names upsilon) \<and>
   [CHR 0xCF, CHR 0x92] \<in> set (column_names upsilon_clean)"
proof -
  have "column_names albania_clean
     = [''country'', ''year'', ''suicides_no'', ''gdp_for_year_$'', ''gdp_per_capita'']"
    by code_simp
  moreover have "map (normalize_name sample_lower) (column_names albania)
     = [''country'', ''year'', ''suicides_no'', ''gdp_for_year_$'', ''gdp_per_capita_$'',
        ''hdi_for_year'']"
    by code_simp
  moreover have "[CHR 0xCF, CHR 0x92] \<in> set (column_names upsilon)"
    by (simp add: column_names_def upsilon_def)
  moreover have "[CHR 0xCF, CHR 0x92] \<in> set (column_names upsilon_clean)"
    by (simp add: column_names_def upsilon_clean_def)
  ultimately show ?thesis using albania_result upsilon_result by simp
qed

text \<open>
  C5, amended. The names of the table returned are, in order, the names of the input
  columns that are kept, each lowercased by \<open>str.lower()\<close>, with every space replaced by
  an underscore and the parentheses deleted, and then \<open>gdp_per_capita_$\<close> replaced by
  \<open>gdp_per_capita\<close>. No name returned contains a space or a parenthesis. No name returned
  contains a letter \<open>A\<close> to \<open>Z\<close>, provided that \<open>str.lower()\<close> returns no such letter;
  nothing is said of other uppercase letters.
\<close>

theorem column_names_normalized:
  assumes "clean_dataset lower parse repr d = Inr d'"
  shows "column_names d'
           = map (\<lambda>name. final_name (normalize_name lower name))
               (filter (kept lower) (column_names d)) \<and>
         (\<forall>name \<in> set (column_names d'). \<forall>c \<in> set name.
            c \<noteq> CHR '' '' \<and> c \<noteq> CHR ''('' \<and> c \<noteq> CHR '')'') \<and>
         ((\<forall>s. \<forall>c \<in> set (lower s). \<not> ascii_upper c) \<longrightarrow>
          (\<forall>name \<in> set (column_names d'). \<forall>c \<in> set name. \<not> ascii_upper c))"
proof -
  have d': "d' = cleaned lower parse repr d"
    using assms by (simp add: clean_dataset_Inr_iff)
  have n: "column_names d'
           = map (\<lambda>name. final_name (normalize_name lower name))
               (filter (kept lower) (column_names d))"
    unfolding d' by (rule column_names_cleaned)
  have src: "\<exists>a. c \<in> set (normalize_name lower a) \<or> c \<in> set ''gdp_per_capita''"
    if "name \<in> set (column_names d')" "c \<in> set name" for name c
  proof -
    from that(1) n obtain a where "name = final_name (normalize_name lower a)" by auto
    with that(2) final_name_chars show ?thesis by blast
  qed
  have plain: "c \<noteq> CHR '' '' \<and> c \<noteq> CHR ''('' \<and> c \<noteq> CHR '')''"
    if "name \<in> set (column_names d')" "c \<in> set name" for name c
  proof -
    from src [OF that] obtain a
      where "c \<in> set (normalize_name lower a) \<or> c \<in> set ''gdp_per_capita''" by blast
    then show ?thesis
    proof
      assume "c \<in> set (normalize_name lower a)"
      then show ?thesis using normalize_name_chars(1-3) by blast
    next
      assume "c \<in> set ''gdp_per_capita''"
      then show ?thesis by auto
    qed
  qed
  have up: "\<not> ascii_upper c"
    if l: "\<forall>s. \<forall>c \<in> set (lower s). \<not> ascii_upper c"
      and "name \<in> set (column_names d')" "c \<in> set name" for name c
  proof -
    from src [OF that(2,3)] obtain a
      where "c \<in> set (normalize_name lower a) \<or> c \<in> set ''gdp_per_capita''" by blast
    then show ?thesis
    proof
      assume "c \<in> set (normalize_name lower a)"
      then have "c \<in> set (lower a) \<or> c = CHR ''_''" by (rule normalize_name_chars(4))
      then show ?thesis using l by (auto simp: ascii_upper_def)
    next
      assume "c \<in> set ''gdp_per_capita''"
      then show ?thesis by (auto simp: ascii_upper_def)
    qed
  qed
  from n plain up show ?thesis by blast
qed

theorem column_names_normalized_witness:
  "clean_dataset sample_lower sample_parse sample_repr albania = Inr albania_clean \<and>
   column_names albania_clean
     = map (\<lambda>name. final_name (normalize_name sample_lower name))
         (filter (kept sample_lower) (column_names albania)) \<and>
   ''gdp_per_capita'' \<in> set (column_names albania_clean) \<and>
   CHR ''g'' \<noteq> CHR '' '' \<and> CHR ''g'' \<noteq> CHR ''('' \<and> CHR ''g'' \<noteq> CHR '')'' \<and>
   \<not> ascii_upper (CHR ''g'')"
proof -
  note t = column_names_normalized [OF albania_result]
  have l: "\<forall>s. \<forall>c \<in> set (sample_lower s). \<not> ascii_upper c"
    using sample_lower_no_upper by blast
  have m: "''gdp_per_capita'' \<in> set (column_names albania_clean)" by code_simp
  have g: "CHR ''g'' \<in> set ''gdp_per_capita''" by simp
  from t l m g have "\<not> ascii_upper (CHR ''g'')" by blast
  moreover from t m g
  have "CHR ''g'' \<noteq> CHR '' '' \<and> CHR ''g'' \<noteq> CHR ''('' \<and> CHR ''g'' \<noteq> CHR '')''" by blast
  ultimately show ?thesis using t m albania_result by blast
qed

section \<open>The columns of the result\<close>

lemma occurs_pos:
  assumes "occurs lower key d \<noteq> 0"
  shows "\<exists>a \<in> set (column_names d). normalize_name lower a = key"
proof -
  from assms have "filter (\<lambda>(n, cs). n = key) (columns (standardize_columns lower d)) \<noteq> []"
    by (simp add: occurs_def count_label_def)
  then obtain n cs where "(n, cs) \<in> set (columns (standardize_columns lower d))" "n = key"
    by (auto simp: filter_empty_conv)
  then show ?thesis
    by (force simp: standardize_columns_def set_column_names_def column_names_def)
qed

lemma occurs_zero:
  assumes "occurs lower key d = 0"
  shows "key \<notin> normalize_name lower ` set (column_names d)"
proof
  assume "key \<in> normalize_name lower ` set (column_names d)"
  then obtain col where "col \<in> set (columns d)" "normalize_name lower (fst col) = key"
    by (auto simp: column_names_def)
  then have "(key, snd col) \<in> set (columns (standardize_columns lower d))"
    using mem_standardize by force
  then have "filter (\<lambda>(n, cs). n = key) (columns (standardize_columns lower d)) \<noteq> []"
    by (force simp: filter_empty_conv)
  with assms show False by (simp add: occurs_def count_label_def)
qed

lemma drop_column_absent: "count_label key f = 0 \<Longrightarrow> drop_column key f = f"
proof -
  assume "count_label key f = 0"
  then have "\<forall>x \<in> set (columns f). \<not> (case x of (n, cs) \<Rightarrow> n = key)"
    by (simp add: count_label_def filter_empty_conv)
  then have "filter (\<lambda>(n, cs). n \<noteq> key) (columns f) = columns f"
    by (auto intro!: filter_True)
  then show ?thesis by (simp add: drop_column_def)
qed

text \<open>
  C6. When \<open>clean_dataset\<close> returns a table, \<open>gdp_per_capita\<close> is one of its column
  names and neither \<open>gdp_per_capita_$\<close> nor \<open>hdi_for_year\<close> is. Line 115 does not raise
  on a frame without an \<open>hdi_for_year\<close> column and leaves it as it is, and an input
  without that column, on which the other statements do not raise, is cleaned and
  returned.
\<close>

theorem returned_columns:
  "(clean_dataset lower parse repr d = Inr d' \<longrightarrow>
      ''gdp_per_capita'' \<in> set (column_names d') \<and>
      ''gdp_per_capita_$'' \<notin> set (column_names d') \<and>
      ''hdi_for_year'' \<notin> set (column_names d')) \<and>
   (\<forall>f. count_label ''hdi_for_year'' f = 0 \<longrightarrow>
      apply_step parse repr DropHdi f = Inr f) \<and>
   (cleanable lower d \<and> occurs lower ''hdi_for_year'' d = 0 \<longrightarrow>
      clean_dataset lower parse repr d = Inr (cleaned lower parse repr d))"
proof (intro conjI impI allI)
  assume r: "clean_dataset lower parse repr d = Inr d'"
  then have cl: "cleanable lower d" and d': "d' = cleaned lower parse repr d"
    by (simp_all add: clean_dataset_Inr_iff)
  have n: "column_names d'
      = map (\<lambda>name. final_name (normalize_name lower name)) (filter (kept lower) (column_names d))"
    unfolding d' by (rule column_names_cleaned)
  from cl have "occurs lower ''gdp_per_capita_$'' d \<noteq> 0" by (simp add: cleanable_def)
  then obtain a where a: "a \<in> set (column_names d)" "normalize_name lower a = ''gdp_per_capita_$''"
    using occurs_pos by blast
  then have "kept lower a" "final_name (normalize_name lower a) = ''gdp_per_capita''"
    by (simp_all add: kept_def final_name_def)
  with a(1) show "''gdp_per_capita'' \<in> set (column_names d')"
    unfolding n by force
  show "''gdp_per_capita_$'' \<notin> set (column_names d')"
  proof
    assume "''gdp_per_capita_$'' \<in> set (column_names d')"
    then obtain x where "final_name (normalize_name lower x) = ''gdp_per_capita_$''"
      unfolding n by auto
    then show False by (simp add: final_name_def split: if_splits)
  qed
  show "''hdi_for_year'' \<notin> set (column_names d')"
  proof
    assume "''hdi_for_year'' \<in> set (column_names d')"
    then obtain x where "kept lower x" "final_name (normalize_name lower x) = ''hdi_for_year''"
      unfolding n by auto
    then show False by (simp add: final_name_def kept_def split: if_splits)
  qed
next
  fix f :: "'a dataframe"
  assume "count_label ''hdi_for_year'' f = 0"
  then show "apply_step parse repr DropHdi f = Inr f"
    by (simp add: drop_column_absent)
next
  assume "cleanable lower d \<and> occurs lower ''hdi_for_year'' d = 0"
  then show "clean_dataset lower parse repr d = Inr (cleaned lower parse repr d)"
    by (simp add: clean_dataset_cleanable)
qed

theorem returned_columns_witness:
  "clean_dataset sample_lower sample_parse sample_repr albania = Inr albania_clean \<and>
   ''gdp_per_capita'' \<in> set (column_names albania_clean) \<and>
   ''gdp_per_capita_$'' \<notin> set (column_names albania_clean) \<and>
   ''hdi_for_year'' \<notin> set (column_names albania_clean) \<and>
   count_label ''hdi_for_year'' (standardize_columns sample_lower no_gdp_for_year) = 0 \<and>
   apply_step sample_parse sample_repr DropHdi (standardize_columns sample_lower no_gdp_for_year)
     = Inr (standardize_columns sample_lower no_gdp_for_year) \<and>
   cleanable sample_lower no_gdp_for_year \<and> occurs sample_lower ''hdi_for_year'' no_gdp_for_year = 0 \<and>
   clean_dataset sample_lower sample_parse sample_repr no_gdp_for_year
     = Inr (cleaned sample_lower sample_parse sample_repr no_gdp_for_year)"
proof -
  have a: "count_label ''hdi_for_year'' (standardize_columns sample_lower no_gdp_for_year) = 0" by code_simp
  have b: "cleanable sample_lower no_gdp_for_year" by code_simp
  have c: "occurs sample_lower ''hdi_for_year'' no_gdp_for_year = 0" by code_simp
  show ?thesis
    using a b c albania_result
      returned_columns [where lower = sample_lower and parse = sample_parse and repr = sample_repr
        and d = albania and d' = albania_clean]
      returned_columns [where lower = sample_lower and parse = sample_parse and repr = sample_repr
        and d = no_gdp_for_year]
    by blast
qed

section \<open>The other fields\<close>

lemma clean_column_ordinary:
  assumes "ordinary (normalize_name lower name)"
  shows "clean_column lower parse repr (name, cs) = (normalize_name lower name, cs)"
    and "kept lower name"
    and "final_name (normalize_name lower name) = normalize_name lower name"
    and "clean_cell parse repr (normalize_name lower name) = (\<lambda>c. c)"
  using assms
  by (simp_all add: clean_column_def ordinary_def kept_def final_name_def clean_cell_other)

text \<open>
  C8. When \<open>clean_dataset\<close> returns a table, a column whose normalised name is none of
  \<open>suicides_no\<close>, \<open>gdp_for_year_$\<close>, \<open>gdp_per_capita_$\<close>, \<open>hdi_for_year\<close> is in the
  result under its normalised name with the same cells, and so every field of every row
  under such a name has the same value in the result. In the row-wise form of the result
  (\<open>clean_row\<close>) the name of such a field is its normalised name and its cell function is
  the identity.
\<close>

theorem other_fields_unchanged:
  assumes "clean_dataset lower parse repr d = Inr d'" and "ordinary (normalize_name lower name)"
  shows "(\<forall>cs. (name, cs) \<in> set (columns d) \<longrightarrow> (normalize_name lower name, cs) \<in> set (columns d')) \<and>
         (\<forall>i < nrows d. \<forall>v. (name, v) \<in> set (row d i) \<longrightarrow>
            (normalize_name lower name, v) \<in> set (row d' i)) \<and>
         final_name (normalize_name lower name) = normalize_name lower name \<and>
         (\<forall>c. clean_cell parse repr (normalize_name lower name) c = c)"
proof -
  have d': "d' = cleaned lower parse repr d"
    using assms(1) by (simp add: clean_dataset_Inr_iff)
  have col: "(normalize_name lower name, cs) \<in> set (columns d')" if "(name, cs) \<in> set (columns d)" for cs
  proof -
    have "clean_column lower parse repr (name, cs) \<in> set (columns d')"
      unfolding d' using that clean_column_ordinary(2) [OF assms(2)]
      by (intro mem_cleaned) simp_all
    then show ?thesis by (simp add: clean_column_ordinary(1) [OF assms(2)])
  qed
  have rw: "(normalize_name lower name, v) \<in> set (row d' i)" if "(name, v) \<in> set (row d i)" for i v
  proof -
    from that obtain cs where "(name, cs) \<in> set (columns d)" "v = cs ! i"
      by (auto simp: row_def)
    with col [of cs] show ?thesis by (force simp: row_def)
  qed
  have id: "\<forall>c. clean_cell parse repr (normalize_name lower name) c = c"
    using assms(2) by (simp add: ordinary_def clean_cell_def)
  show ?thesis
    using col rw id clean_column_ordinary(3) [OF assms(2)] by simp
qed

theorem other_fields_unchanged_witness:
  "clean_dataset sample_lower sample_parse sample_repr albania = Inr albania_clean \<and>
   ordinary (normalize_name sample_lower ''country'') \<and>
   (''country'', [Str ''Albania'', Str ''Albania'']) \<in> set (columns albania) \<and>
   (normalize_name sample_lower ''country'', [Str ''Albania'', Str ''Albania'']) \<in> set (columns albania_clean) \<and>
   (1::nat) < nrows albania \<and>
   (''country'', Str ''Albania'') \<in> set (row albania 1) \<and>
   (normalize_name sample_lower ''country'', Str ''Albania'') \<in> set (row albania_clean 1)"
proof -
  have o: "ordinary (normalize_name sample_lower ''country'')" by code_simp
  have m: "(''country'', [Str ''Albania'', Str ''Albania'']) \<in> set (columns albania)"
    by (simp add: albania_def)
  have n: "(1::nat) < nrows albania" by code_simp
  have r: "(''country'', Str ''Albania'') \<in> set (row albania 1)"
    by (simp add: row_def albania_def)
  show ?thesis
    using other_fields_unchanged [OF albania_result o] albania_result o m n r by blast
qed

section \<open>The order of the steps\<close>

lemma apply_step_table:
  "table_of (apply_step parse repr s d)
     = (if step_ok s d then Some (step_act parse repr s d) else None)"
proof (cases s)
  case CoerceSuicides
  consider "count_label ''suicides_no'' d = 0" | "count_label ''suicides_no'' d = 1"
    | "2 \<le> count_label ''suicides_no'' d" by linarith
  then show ?thesis
    using CoerceSuicides
    by cases (simp_all add: coerce_column_absent coerce_column_single coerce_column_many)
next
  case CoerceGdpPerCapita
  consider "count_label ''gdp_per_capita_$'' d = 0" | "count_label ''gdp_per_capita_$'' d = 1"
    | "2 \<le> count_label ''gdp_per_capita_$'' d" by linarith
  then show ?thesis
    using CoerceGdpPerCapita
    by cases (simp_all add: coerce_column_absent coerce_column_single coerce_column_many)
next
  case CleanGdpForYear
  consider "count_label ''gdp_for_year_$'' d \<le> 1" | "2 \<le> count_label ''gdp_for_year_$'' d"
    by linarith
  then show ?thesis
    using CleanGdpForYear
    by cases (simp_all add: clean_gdp_for_year_le1 clean_gdp_for_year_many)
next
  case DropHdi
  then show ?thesis by simp
qed

lemma step_ok_act [simp]: "step_ok s' (step_act parse repr s d) = step_ok s' d"
  by (cases s; cases s') (simp_all add: count_label_drop_other)

lemma map_column_commute:
  "k \<noteq> k' \<Longrightarrow> map_column k f (map_column k' g d) = map_column k' g (map_column k f d)"
proof -
  assume "k \<noteq> k'"
  then have "map (\<lambda>(n, cs). if n = k then (n, map f cs) else (n, cs))
               (map (\<lambda>(n, cs). if n = k' then (n, map g cs) else (n, cs)) xs)
           = map (\<lambda>(n, cs). if n = k' then (n, map g cs) else (n, cs))
               (map (\<lambda>(n, cs). if n = k then (n, map f cs) else (n, cs)) xs)" for xs
    by (induction xs) auto
  then show ?thesis by (simp add: map_column_def)
qed

lemma map_column_drop_commute:
  "map_column k f (drop_column k' d) = drop_column k' (map_column k f d)"
proof -
  have "map (\<lambda>(n, cs). if n = k then (n, map f cs) else (n, cs)) (filter (\<lambda>(n, cs). n \<noteq> k') xs)
      = filter (\<lambda>(n, cs). n \<noteq> k')
          (map (\<lambda>(n, cs). if n = k then (n, map f cs) else (n, cs)) xs)" for xs
    by (induction xs) (auto split: if_splits)
  then show ?thesis by (simp add: map_column_def drop_column_def)
qed

lemma step_act_commute:
  "step_act parse repr s (step_act parse repr s' d) = step_act parse repr s' (step_act parse repr s d)"
  by (cases s; cases s') (simp_all add: map_column_commute map_column_drop_commute)

lemma run_steps_table:
  "table_of (run_steps parse repr ss d)
     = (if \<forall>s \<in> set ss. step_ok s d then Some (fold (step_act parse repr) ss d) else None)"
proof (induction ss arbitrary: d)
  case Nil
  show ?case by simp
next
  case (Cons s ss)
  show ?case
  proof (cases "step_ok s d")
    case True
    with apply_step_table [of parse repr s d]
    have "apply_step parse repr s d = Inr (step_act parse repr s d)"
      by (cases "apply_step parse repr s d") simp_all
    then show ?thesis using True Cons.IH [of "step_act parse repr s d"] by simp
  next
    case False
    with apply_step_table [of parse repr s d]
    obtain e where "apply_step parse repr s d = Inl e"
      by (cases "apply_step parse repr s d") simp_all
    then show ?thesis using False by simp
  qed
qed

lemma fold_step_act_perm:
  assumes "mset ss = mset ss'"
  shows "fold (step_act parse repr) ss d = fold (step_act parse repr) ss' d"
proof -
  have "fold (step_act parse repr) ss = fold (step_act parse repr) ss'"
    using _ assms
  proof (rule fold_multiset_equiv)
    fix x y
    show "step_act parse repr x \<circ> step_act parse repr y = step_act parse repr y \<circ> step_act parse repr x"
      by (rule ext) (simp add: step_act_commute)
  qed
  then show ?thesis by simp
qed

lemma run_steps_perm:
  assumes "mset ss = mset ss'"
  shows "table_of (run_steps parse repr ss d) = table_of (run_steps parse repr ss' d)"
proof -
  have "set ss = set ss'" using assms by (rule mset_eq_setD)
  then show ?thesis
    using fold_step_act_perm [OF assms, of parse repr d] by (simp add: run_steps_table)
qed

lemma clean_dataset_code_order:
  "clean_dataset lower parse repr d = clean_in_order lower parse repr code_order d"
  by (simp add: clean_dataset_def clean_in_order_def code_order_def Let_def split: sum.splits)

lemma table_of_clean_in_order:
  "table_of (clean_in_order lower parse repr ss d)
     = map_option (rename_column ''gdp_per_capita_$'' ''gdp_per_capita'')
         (table_of (run_steps parse repr ss (standardize_columns lower d)))"
  by (simp add: clean_in_order_def split: sum.splits)

text \<open>
  C9. Run after the normalisation of the names in any order, the four steps (coercion of
  \<open>suicides_no\<close>, cleaning of the GDP-per-year column, coercion of the GDP-per-capita
  column, removal of \<open>hdi_for_year\<close>) produce the table that the order of the code
  produces, and produce none exactly when the code's order produces none; any two of the
  steps commute in this sense.
\<close>

theorem steps_commute:
  assumes "mset ss = mset code_order"
  shows "table_of (clean_in_order lower parse repr ss d) = table_of (clean_dataset lower parse repr d) \<and>
         (\<forall>a b. table_of (run_steps parse repr [a, b] (standardize_columns lower d))
                  = table_of (run_steps parse repr [b, a] (standardize_columns lower d)))"
proof -
  have "table_of (clean_in_order lower parse repr ss d) = table_of (clean_dataset lower parse repr d)"
    unfolding clean_dataset_code_order table_of_clean_in_order
    using run_steps_perm [OF assms, of parse repr "standardize_columns lower d"] by simp
  moreover have "table_of (run_steps parse repr [a, b] (standardize_columns lower d))
                  = table_of (run_steps parse repr [b, a] (standardize_columns lower d))" for a b
    by (rule run_steps_perm) simp
  ultimately show ?thesis by blast
qed

theorem steps_commute_witness:
  "mset other_order = mset code_order \<and>
   table_of (clean_in_order sample_lower sample_parse sample_repr other_order albania)
     = table_of (clean_dataset sample_lower sample_parse sample_repr albania) \<and>
   table_of (run_steps sample_parse sample_repr [DropHdi, CoerceSuicides]
               (standardize_columns sample_lower albania))
     = table_of (run_steps sample_parse sample_repr [CoerceSuicides, DropHdi]
                   (standardize_columns sample_lower albania)) \<and>
   clean_in_order sample_lower sample_parse sample_repr other_order albania = Inr albania_clean"
proof -
  have m: "mset other_order = mset code_order"
    by (simp add: other_order_def code_order_def)
  have "clean_in_order sample_lower sample_parse sample_repr other_order albania = Inr albania_clean"
    by code_simp
  with m steps_commute [OF m, where lower = sample_lower and parse = sample_parse
      and repr = sample_repr and d = albania] show ?thesis by blast
qed

section \<open>The input is not mutated\<close>

text \<open>
  C7. On a store of objects, \<open>clean_dataset\<close> adds one object and changes no object that
  existed before the call, so the frame passed in is after the call what it was before,
  whether the call returns or raises. The reference returned is the new object, distinct
  from the argument, and the new object holds the result of the cleaning.
\<close>

theorem clean_dataset_store_frame:
  assumes "r < length h"
  shows "length (snd (clean_dataset_store lower parse repr r h)) = Suc (length h) \<and>
         take (length h) (snd (clean_dataset_store lower parse repr r h)) = h \<and>
         snd (clean_dataset_store lower parse repr r h) ! r = h ! r \<and>
         (\<forall>d. fst (clean_dataset_store lower parse repr r h) = Inr d \<longrightarrow>
            d = length h \<and> d \<noteq> r \<and>
            clean_dataset lower parse repr (h ! r) = Inr (snd (clean_dataset_store lower parse repr r h) ! d)) \<and>
         (\<forall>e. fst (clean_dataset_store lower parse repr r h) = Inl e \<longrightarrow>
            clean_dataset lower parse repr (h ! r) = Inl e)"
  using assms
  by (auto simp: clean_dataset_store_def copy_frame_def clean_dataset_def Let_def nth_append
      split: sum.splits)

theorem clean_dataset_store_frame_witness:
  "(1::nat) < length sample_store \<and>
   fst (clean_dataset_store sample_lower sample_parse sample_repr 1 sample_store) = Inr 2 \<and>
   snd (clean_dataset_store sample_lower sample_parse sample_repr 1 sample_store)
     = [no_gdp_for_year, albania, albania_clean] \<and>
   take (length sample_store) (snd (clean_dataset_store sample_lower sample_parse sample_repr 1 sample_store))
     = sample_store \<and>
   snd (clean_dataset_store sample_lower sample_parse sample_repr 1 sample_store) ! 1 = sample_store ! 1 \<and>
   clean_dataset sample_lower sample_parse sample_repr (sample_store ! 1)
     = Inr (snd (clean_dataset_store sample_lower sample_parse sample_repr 1 sample_store) ! 2)"
proof -
  have l: "(1::nat) < length sample_store" by (simp add: sample_store_def)
  have f: "fst (clean_dataset_store sample_lower sample_parse sample_repr 1 sample_store) = Inr 2"
    by code_simp
  have s: "snd (clean_dataset_store sample_lower sample_parse sample_repr 1 sample_store)
     = [no_gdp_for_year, albania, albania_clean]"
    by code_simp
  from clean_dataset_store_frame [OF l, where lower = sample_lower and parse = sample_parse
      and repr = sample_repr] f
  have "take (length sample_store) (snd (clean_dataset_store sample_lower sample_parse sample_repr 1 sample_store))
     = sample_store \<and>
   snd (clean_dataset_store sample_lower sample_parse sample_repr 1 sample_store) ! 1 = sample_store ! 1 \<and>
   clean_dataset sample_lower sample_parse sample_repr (sample_store ! 1)
     = Inr (snd (clean_dataset_store sample_lower sample_parse sample_repr 1 sample_store) ! 2)"
    by blast
  with l f s show ?thesis by blast
qed

section \<open>The loaders\<close>

text \<open>
  C10. The two definitions of \<open>load_data\<close> are the same function of the reader and the
  file system, and so the frame previewed and the frame passed to \<open>clean_dataset\<close> are
  equal when the file system is the same.
\<close>

theorem loaders_agree:
  "load_data read_csv = load_data' read_csv \<and> df_preview read_csv fs = df_raw read_csv fs"
  by (simp add: load_data_def load_data'_def df_preview_def df_raw_def fun_eq_iff)

end
